theory Spec2Isabelle
  imports Complex_Main
begin

section \<open>Retirement simulation: data model\<close>

text \<open>
  The development embeds \<^verbatim>\<open>retire_sim/model.py\<close>, \<^verbatim>\<open>retire_sim/israeli_tax.py\<close>
  and \<^verbatim>\<open>retire_sim/search.py\<close>.  Python floats are idealised as real numbers:
  rounding, infinities and NaN are outside the model.  What Python raises is a value
  of \<open>py_error\<close>: a float division by zero, a comparison on a complex number (the
  monthly rate \<^verbatim>\<open>(1 + r) ** (1/12)\<close> is complex when \<^verbatim>\<open>1 + r\<close> is negative), and
  a \<^verbatim>\<open>range\<close> with step zero.
\<close>

datatype py_error = ZeroDivisionError | TypeError | ValueError

subsection \<open>Tax module\<close>

record TaxBracket =
  threshold :: real
  rate :: real
  base_tax :: real

definition ISRAELI_TAX_BRACKETS :: "TaxBracket list" where
  "ISRAELI_TAX_BRACKETS =
    [\<lparr>threshold = 0, rate = 10 / 100, base_tax = 0\<rparr>,
     \<lparr>threshold = 84120, rate = 14 / 100, base_tax = 8412\<rparr>,
     \<lparr>threshold = 120720, rate = 20 / 100, base_tax = 13536\<rparr>,
     \<lparr>threshold = 193800, rate = 31 / 100, base_tax = 28152\<rparr>,
     \<lparr>threshold = 269280, rate = 35 / 100, base_tax = 51551\<rparr>,
     \<lparr>threshold = 560280, rate = 47 / 100, base_tax = 153401\<rparr>,
     \<lparr>threshold = 721560, rate = 50 / 100, base_tax = 229203\<rparr>]"

record NationalInsuranceConfig =
  rate_low :: real
  rate_high :: real
  threshold_low_monthly :: real
  cap_monthly :: real

definition NATIONAL_INSURANCE :: NationalInsuranceConfig where
  "NATIONAL_INSURANCE =
    \<lparr>rate_low = 427 / 10000, rate_high = 1217 / 10000,
     threshold_low_monthly = 7522, cap_monthly = 50695\<rparr>"

text \<open>
  The bracket loop of \<^verbatim>\<open>calculate_income_tax\<close>: the last bracket assigns only above
  its threshold; every other bracket looks at the next threshold and breaks on a hit.
  The third argument is the running value of \<^verbatim>\<open>tax\<close>.
\<close>

fun income_tax_loop :: "real \<Rightarrow> TaxBracket list \<Rightarrow> real \<Rightarrow> real" where
  "income_tax_loop annual_income [] tax = tax"
| "income_tax_loop annual_income [bracket] tax =
     (if annual_income > threshold bracket
      then base_tax bracket + (annual_income - threshold bracket) * rate bracket
      else tax)"
| "income_tax_loop annual_income (bracket # next_bracket # rest) tax =
     (if annual_income \<le> threshold next_bracket
      then base_tax bracket + (annual_income - threshold bracket) * rate bracket
      else income_tax_loop annual_income (next_bracket # rest) tax)"

definition calculate_income_tax :: "real \<Rightarrow> real" where
  "calculate_income_tax annual_income =
     (if annual_income \<le> 0 then 0
      else income_tax_loop annual_income ISRAELI_TAX_BRACKETS 0)"

definition calculate_national_insurance :: "real \<Rightarrow> real" where
  "calculate_national_insurance monthly_income =
     (if monthly_income \<le> 0 then 0
      else
        let capped_income = min monthly_income (cap_monthly NATIONAL_INSURANCE) in
        if capped_income \<le> threshold_low_monthly NATIONAL_INSURANCE
        then capped_income * rate_low NATIONAL_INSURANCE
        else
          let low_part = threshold_low_monthly NATIONAL_INSURANCE * rate_low NATIONAL_INSURANCE;
              high_part = (capped_income - threshold_low_monthly NATIONAL_INSURANCE)
                            * rate_high NATIONAL_INSURANCE
          in low_part + high_part)"

definition calculate_monthly_tax_from_gross :: "real \<Rightarrow> real" where
  "calculate_monthly_tax_from_gross gross_monthly_income =
     (if gross_monthly_income \<le> 0 then 0
      else
        let annual_income = gross_monthly_income * 12;
            annual_income_tax = calculate_income_tax annual_income;
            monthly_income_tax = annual_income_tax / 12;
            monthly_ni = calculate_national_insurance gross_monthly_income
        in monthly_income_tax + monthly_ni)"

subsection \<open>Parameters and results\<close>

type_synonym schedule = "(real \<times> real) list"

type_synonym event = "real \<times> real \<times> string"

record Params =
  age_now :: real
  retire_age :: real
  pension_start_age :: real
  income_schedule :: "schedule option"
  spouse_age_now :: real
  spouse_retire_age :: real
  spouse_pension_start_age :: real
  spouse_income_schedule :: "schedule option"
  one_time_events :: "event list option"
  expense_schedule :: "schedule option"
  end_age :: real
  r_annual_real :: real
  gross_income_month :: real
  pension_rate :: real
  pension_rate_employer :: real
  hishtalmut_rate_employee :: real
  hishtalmut_rate_employer :: real
  hishtalmut_salary_cap :: real
  spouse_gross_income_month :: real
  spouse_pension_rate :: real
  spouse_pension_rate_employer :: real
  spouse_hishtalmut_rate_employee :: real
  spouse_hishtalmut_rate_employer :: real
  spouse_hishtalmut_salary_cap :: real
  spend_month :: real
  liquid_now :: real
  pension_now :: real
  spouse_pension_now :: real
  min_assets :: real
  mekadem :: real
  spouse_mekadem :: real
  old_age_pension_month :: real
  old_age_pension_start_age :: real
  pension_tax_free_amount :: real

text \<open>
  The property \<^verbatim>\<open>Params.r_month\<close>.  For \<open>1 + r_annual_real < 0\<close> Python's power is a
  complex number; \<open>rate_is_complex\<close> says so, and the month loop raises where that
  number is first compared.
\<close>

definition r_month :: "Params \<Rightarrow> real" where
  "r_month p = (1 + r_annual_real p) powr (1 / 12) - 1"

definition rate_is_complex :: "Params \<Rightarrow> bool" where
  "rate_is_complex p = (1 + r_annual_real p < 0)"

datatype phase = both_working | one_working | bridge | post_pension

text \<open>One row of the data frame; the field \<open>col_x\<close> is the column \<^verbatim>\<open>'x'\<close>.\<close>

record month_record =
  col_month :: nat
  col_age1 :: real
  col_age2 :: real
  col_phase :: phase
  col_liquid :: real
  col_pension1 :: real
  col_pension2 :: real
  col_salary1_gross :: real
  col_salary1_net :: real
  col_hishtalmut1 :: real
  col_salary2_gross :: real
  col_salary2_net :: real
  col_hishtalmut2 :: real
  col_pension1_income :: real
  col_pension2_income :: real
  col_pension1_income_net :: real
  col_pension2_income_net :: real
  col_one_time_event :: real
  col_total_pension_income :: real
  col_old_age_pension :: real
  col_monthly_expense :: real
  col_liquid_change :: real
  col_person1_working :: bool
  col_person2_working :: bool

text \<open>
  The reason strings.  The formatted ones carry the numbers that the f-string
  interpolates instead of their decimal rendering.
\<close>

datatype reason =
    NoReason
  | P1_retire_before_current_age
  | P2_retire_before_current_age
  | P1_retire_after_pension_start
  | P2_retire_after_pension_start
  | P1_income_age_before_current real real
  | P1_income_age_at_or_after_retirement real real
  | P1_income_negative real
  | P2_income_age_before_current real real
  | P2_income_age_at_or_after_retirement real real
  | P2_income_negative real
  | Event_before_current_age real real
  | Event_after_end_age real real
  | Expense_age_before_current real real
  | Expense_age_after_end real real
  | Expense_negative real
  | Assets_fell_below_minimum real real real
  | Assets_below_minimum_at_end real real
  | Feasible_scenario

record Result =
  ok :: bool
  reason :: reason
  df :: "month_record list"
  pension_at_start :: real
  pension_income_month :: real
  spouse_pension_at_start :: real
  spouse_pension_income_month :: real
  liquid_end :: real
  liquid_at_pension_start :: real

section \<open>Schedule resolver\<close>

definition get_income_at_age :: "real \<Rightarrow> real \<Rightarrow> schedule option \<Rightarrow> real" where
  "get_income_at_age age base_income income_sched =
     (case income_sched of
        None \<Rightarrow> base_income
      | Some sch \<Rightarrow>
          if sch = [] then base_income
          else
            let applicable_changes = filter (\<lambda>(sch_age, income). sch_age \<le> age) sch in
            if applicable_changes = [] then base_income
            else snd (last applicable_changes))"

definition get_expense_at_age :: "real \<Rightarrow> real \<Rightarrow> schedule option \<Rightarrow> real" where
  "get_expense_at_age age base_expense expense_sched =
     (case expense_sched of
        None \<Rightarrow> base_expense
      | Some sch \<Rightarrow>
          if sch = [] then base_expense
          else
            let applicable_changes = filter (\<lambda>(sch_age, expense). sch_age \<le> age) sch in
            if applicable_changes = [] then base_expense
            else snd (last applicable_changes))"

section \<open>Simulation engine\<close>

subsection \<open>Input validation\<close>

fun validate_income_schedule1 :: "real \<Rightarrow> Params \<Rightarrow> schedule \<Rightarrow> reason option" where
  "validate_income_schedule1 retire_age' p [] = None"
| "validate_income_schedule1 retire_age' p ((schedule_age, schedule_income) # rest) =
     (if schedule_age < age_now p
        then Some (P1_income_age_before_current schedule_age (age_now p))
      else if schedule_age \<ge> retire_age'
        then Some (P1_income_age_at_or_after_retirement schedule_age retire_age')
      else if schedule_income < 0
        then Some (P1_income_negative schedule_income)
      else validate_income_schedule1 retire_age' p rest)"

fun validate_income_schedule2 :: "real \<Rightarrow> Params \<Rightarrow> schedule \<Rightarrow> reason option" where
  "validate_income_schedule2 spouse_retire_age' p [] = None"
| "validate_income_schedule2 spouse_retire_age' p ((schedule_age, schedule_income) # rest) =
     (if schedule_age < spouse_age_now p
        then Some (P2_income_age_before_current schedule_age (spouse_age_now p))
      else if schedule_age \<ge> spouse_retire_age'
        then Some (P2_income_age_at_or_after_retirement schedule_age spouse_retire_age')
      else if schedule_income < 0
        then Some (P2_income_negative schedule_income)
      else validate_income_schedule2 spouse_retire_age' p rest)"

fun validate_one_time_events :: "Params \<Rightarrow> event list \<Rightarrow> reason option" where
  "validate_one_time_events p [] = None"
| "validate_one_time_events p ((event_age, amount, description) # rest) =
     (if event_age < age_now p
        then Some (Event_before_current_age event_age (age_now p))
      else if event_age > end_age p
        then Some (Event_after_end_age event_age (end_age p))
      else validate_one_time_events p rest)"

fun validate_expense_schedule :: "Params \<Rightarrow> schedule \<Rightarrow> reason option" where
  "validate_expense_schedule p [] = None"
| "validate_expense_schedule p ((schedule_age, schedule_expense) # rest) =
     (if schedule_age < age_now p
        then Some (Expense_age_before_current schedule_age (age_now p))
      else if schedule_age > end_age p
        then Some (Expense_age_after_end schedule_age (end_age p))
      else if schedule_expense < 0
        then Some (Expense_negative schedule_expense)
      else validate_expense_schedule p rest)"

text \<open>
  An absent list and an empty list are both falsy in Python, and the loop over an
  empty list does nothing: \<open>opt_list\<close> reads either as the empty list.
\<close>

definition opt_list :: "'a list option \<Rightarrow> 'a list" where
  "opt_list xs = (case xs of None \<Rightarrow> [] | Some ys \<Rightarrow> ys)"

text \<open>The validation block of \<^verbatim>\<open>simulate\<close>: the reason of the first check that fails.\<close>

definition validate :: "real \<Rightarrow> Params \<Rightarrow> real \<Rightarrow> reason option" where
  "validate retire_age' p spouse_retire_age' =
     (if retire_age' < age_now p then Some P1_retire_before_current_age
      else if spouse_retire_age' < spouse_age_now p then Some P2_retire_before_current_age
      else if retire_age' > pension_start_age p then Some P1_retire_after_pension_start
      else if spouse_retire_age' > spouse_pension_start_age p
        then Some P2_retire_after_pension_start
      else
        case validate_income_schedule1 retire_age' p (opt_list (income_schedule p)) of
          Some r \<Rightarrow> Some r
        | None \<Rightarrow>
        (case validate_income_schedule2 spouse_retire_age' p
                (opt_list (spouse_income_schedule p)) of
          Some r \<Rightarrow> Some r
        | None \<Rightarrow>
        (case validate_one_time_events p (opt_list (one_time_events p)) of
          Some r \<Rightarrow> Some r
        | None \<Rightarrow> validate_expense_schedule p (opt_list (expense_schedule p)))))"

definition invalid_result :: "reason \<Rightarrow> Result" where
  "invalid_result rsn =
     \<lparr>ok = False, reason = rsn, df = [],
      pension_at_start = 0, pension_income_month = 0,
      spouse_pension_at_start = 0, spouse_pension_income_month = 0,
      liquid_end = 0, liquid_at_pension_start = 0\<rparr>"

subsection \<open>Horizon\<close>

text \<open>Python's \<^verbatim>\<open>round\<close> on a float: to the nearest integer, a tie to the even one.\<close>

definition py_round :: "real \<Rightarrow> int" where
  "py_round x =
     (let f = \<lfloor>x\<rfloor>; d = x - of_int f in
      if d < 1 / 2 then f
      else if d > 1 / 2 then f + 1
      else if even f then f else f + 1)"

definition total_months :: "Params \<Rightarrow> int" where
  "total_months p =
     (let older_age_now = max (age_now p) (spouse_age_now p)
      in py_round ((end_age p - older_age_now) * 12))"

subsection \<open>Per-run state\<close>

record sim_state =
  liquid :: real
  pension1 :: real
  pension2 :: real
  pension1_income_active :: bool
  pension1_income_month :: real
  pension2_income_active :: bool
  pension2_income_month :: real
  old_age_pension1_active :: bool
  old_age_pension2_active :: bool
  liquid_at_first_pension_start :: real
  first_pension_started :: bool
  min_assets_violated :: bool
  min_assets_violation_reason :: reason
  applied_events :: "nat set"
  records :: "month_record list"

definition initial_state :: "Params \<Rightarrow> sim_state" where
  "initial_state p =
     \<lparr>liquid = liquid_now p, pension1 = pension_now p, pension2 = spouse_pension_now p,
      pension1_income_active = False, pension1_income_month = 0,
      pension2_income_active = False, pension2_income_month = 0,
      old_age_pension1_active = False, old_age_pension2_active = False,
      liquid_at_first_pension_start = 0, first_pension_started = False,
      min_assets_violated = False, min_assets_violation_reason = NoReason,
      applied_events = {}, records = []\<rparr>"

definition age1_at :: "Params \<Rightarrow> nat \<Rightarrow> real" where
  "age1_at p month = age_now p + real month / 12"

definition age2_at :: "Params \<Rightarrow> nat \<Rightarrow> real" where
  "age2_at p month = spouse_age_now p + real month / 12"

subsection \<open>The stages of one month\<close>

definition apply_returns :: "Params \<Rightarrow> sim_state \<Rightarrow> sim_state" where
  "apply_returns p st =
     st\<lparr>liquid := liquid st * (1 + r_month p),
        pension1 := pension1 st * (1 + r_month p),
        pension2 := pension2 st * (1 + r_month p)\<rparr>"

text \<open>
  The salary block of a working person: gross salary, net salary, total hishtalmut
  (employee and employer) and total pension contribution (employee and employer).
\<close>

definition salary_p1 :: "Params \<Rightarrow> real \<Rightarrow> real \<times> real \<times> real \<times> real" where
  "salary_p1 p age1 =
     (let gross_p1 = get_income_at_age age1 (gross_income_month p) (income_schedule p);
          tax_p1 = calculate_monthly_tax_from_gross gross_p1;
          employee_pension_p1 = gross_p1 * pension_rate p;
          capped_salary_p1 = min gross_p1 (hishtalmut_salary_cap p);
          employee_hishtalmut_p1 = capped_salary_p1 * hishtalmut_rate_employee p;
          net_p1 = gross_p1 - tax_p1 - employee_pension_p1 - employee_hishtalmut_p1;
          employer_hishtalmut_p1 = capped_salary_p1 * hishtalmut_rate_employer p;
          hishtalmut1 = employee_hishtalmut_p1 + employer_hishtalmut_p1;
          employer_pension_p1 = gross_p1 * pension_rate_employer p
      in (gross_p1, net_p1, hishtalmut1, employee_pension_p1 + employer_pension_p1))"

definition salary_p2 :: "Params \<Rightarrow> real \<Rightarrow> real \<times> real \<times> real \<times> real" where
  "salary_p2 p age2 =
     (let gross_p2 = get_income_at_age age2 (spouse_gross_income_month p)
                       (spouse_income_schedule p);
          tax_p2 = calculate_monthly_tax_from_gross gross_p2;
          employee_pension_p2 = gross_p2 * spouse_pension_rate p;
          capped_salary_p2 = min gross_p2 (spouse_hishtalmut_salary_cap p);
          employee_hishtalmut_p2 = capped_salary_p2 * spouse_hishtalmut_rate_employee p;
          net_p2 = gross_p2 - tax_p2 - employee_pension_p2 - employee_hishtalmut_p2;
          employer_hishtalmut_p2 = capped_salary_p2 * spouse_hishtalmut_rate_employer p;
          hishtalmut2 = employee_hishtalmut_p2 + employer_hishtalmut_p2;
          employer_pension_p2 = gross_p2 * spouse_pension_rate_employer p
      in (gross_p2, net_p2, hishtalmut2, employee_pension_p2 + employer_pension_p2))"

text \<open>
  The loop over \<^verbatim>\<open>enumerate(params.one_time_events)\<close>: liquid assets, the month's
  event total and the set of applied indices are threaded through.
\<close>

fun apply_events ::
  "real \<Rightarrow> (nat \<times> event) list \<Rightarrow> real \<times> real \<times> nat set \<Rightarrow> real \<times> real \<times> nat set" where
  "apply_events age1 [] acc = acc"
| "apply_events age1 ((idx, (event_age, amount, description)) # rest) (liq, amount_sum, applied) =
     (if age1 \<ge> event_age \<and> idx \<notin> applied
      then apply_events age1 rest (liq + amount, amount_sum + amount, insert idx applied)
      else apply_events age1 rest (liq, amount_sum, applied))"

text \<open>Pension activation; the division by the mekadem raises on zero.\<close>

definition activate_pension1 :: "Params \<Rightarrow> real \<Rightarrow> sim_state \<Rightarrow> py_error + sim_state" where
  "activate_pension1 p age1 st =
     (if \<not> pension1_income_active st \<and> age1 \<ge> pension_start_age p then
        if mekadem p = 0 then Inl ZeroDivisionError
        else
          let st = st\<lparr>pension1_income_active := True,
                      pension1_income_month := pension1 st / mekadem p\<rparr>
          in Inr (if \<not> first_pension_started st
                  then st\<lparr>liquid_at_first_pension_start := liquid st,
                          first_pension_started := True\<rparr>
                  else st)
      else Inr st)"

definition activate_pension2 :: "Params \<Rightarrow> real \<Rightarrow> sim_state \<Rightarrow> py_error + sim_state" where
  "activate_pension2 p age2 st =
     (if \<not> pension2_income_active st \<and> age2 \<ge> spouse_pension_start_age p then
        if spouse_mekadem p = 0 then Inl ZeroDivisionError
        else
          let st = st\<lparr>pension2_income_active := True,
                      pension2_income_month := pension2 st / spouse_mekadem p\<rparr>
          in Inr (if \<not> first_pension_started st
                  then st\<lparr>liquid_at_first_pension_start := liquid st,
                          first_pension_started := True\<rparr>
                  else st)
      else Inr st)"

definition activate_old_age :: "Params \<Rightarrow> real \<Rightarrow> real \<Rightarrow> sim_state \<Rightarrow> sim_state" where
  "activate_old_age p age1 age2 st =
     (let st = (if \<not> old_age_pension1_active st \<and> age1 \<ge> old_age_pension_start_age p
                then st\<lparr>old_age_pension1_active := True\<rparr> else st)
      in (if \<not> old_age_pension2_active st \<and> age2 \<ge> old_age_pension_start_age p
          then st\<lparr>old_age_pension2_active := True\<rparr> else st))"

text \<open>Net pension income of a person whose payout is active, from the gross payout.\<close>

definition pension_net :: "Params \<Rightarrow> real \<Rightarrow> real" where
  "pension_net p pension_gross =
     (let taxable_pension = max 0 (pension_gross - pension_tax_free_amount p);
          pension_tax = calculate_monthly_tax_from_gross taxable_pension
      in pension_gross - pension_tax)"

text \<open>
  First part of the loop body: returns on the three accounts, the salary blocks of
  both persons, the net income added to liquid assets, and the one-time events.
  Besides the state it yields the month's local variables: for each person
  (working, gross salary, net salary, hishtalmut), and the one-time event total.
\<close>

type_synonym work_vars = "bool \<times> real \<times> real \<times> real"

definition income_stage ::
  "real \<Rightarrow> Params \<Rightarrow> real \<Rightarrow> nat \<Rightarrow> sim_state
     \<Rightarrow> sim_state \<times> work_vars \<times> work_vars \<times> real" where
  "income_stage retire_age' p spouse_retire_age' month st =
     (let age1 = age1_at p month;
          age2 = age2_at p month;
          st = apply_returns p st;
          person1_working = (age1 < retire_age');
          (salary1_gross, salary1_net, hishtalmut1, contrib1) =
            (if person1_working then salary_p1 p age1 else (0, 0, 0, 0));
          st = (if person1_working
                then st\<lparr>liquid := liquid st + hishtalmut1,
                        pension1 := pension1 st + contrib1\<rparr>
                else st);
          person2_working = (age2 < spouse_retire_age');
          (salary2_gross, salary2_net, hishtalmut2, contrib2) =
            (if person2_working then salary_p2 p age2 else (0, 0, 0, 0));
          st = (if person2_working
                then st\<lparr>liquid := liquid st + hishtalmut2,
                        pension2 := pension2 st + contrib2\<rparr>
                else st);
          net_income_this_month = salary1_net + salary2_net;
          st = st\<lparr>liquid := liquid st + net_income_this_month\<rparr>;
          (liq, one_time_event_amount, applied) =
            apply_events age1 (enumerate 0 (opt_list (one_time_events p)))
              (liquid st, 0, applied_events st);
          st = st\<lparr>liquid := liq, applied_events := applied\<rparr>
      in (st, (person1_working, salary1_gross, salary1_net, hishtalmut1),
              (person2_working, salary2_gross, salary2_net, hishtalmut2),
              one_time_event_amount))"

text \<open>
  Last part of the loop body, after the pension activations: old-age pension,
  pension payouts, expense, floor check, and the month's row.
\<close>

definition close_month ::
  "Params \<Rightarrow> nat \<Rightarrow> work_vars \<Rightarrow> work_vars \<Rightarrow> real \<Rightarrow> sim_state \<Rightarrow> sim_state" where
  "close_month p month w1 w2 one_time_event_amount st =
     (let age1 = age1_at p month;
          age2 = age2_at p month;
          (person1_working, salary1_gross, salary1_net, hishtalmut1) = w1;
          (person2_working, salary2_gross, salary2_net, hishtalmut2) = w2;
          net_income_this_month = salary1_net + salary2_net;
          st = activate_old_age p age1 age2 st;
          old_age_pension1_amount =
            (if old_age_pension1_active st then old_age_pension_month p else 0);
          old_age_pension2_amount =
            (if old_age_pension2_active st then old_age_pension_month p else 0);
          total_old_age_pension = old_age_pension1_amount + old_age_pension2_amount;
          pension_net_p1 =
            (if pension1_income_active st then pension_net p (pension1_income_month st) else 0);
          st = (if pension1_income_active st
                then st\<lparr>pension1 := pension1 st - pension1_income_month st\<rparr> else st);
          pension_net_p2 =
            (if pension2_income_active st then pension_net p (pension2_income_month st) else 0);
          st = (if pension2_income_active st
                then st\<lparr>pension2 := pension2 st - pension2_income_month st\<rparr> else st);
          total_pension_income_net = pension_net_p1 + pension_net_p2;
          st = st\<lparr>liquid := liquid st + total_pension_income_net\<rparr>;
          st = st\<lparr>liquid := liquid st + total_old_age_pension\<rparr>;
          current_monthly_expense =
            get_expense_at_age age1 (spend_month p) (expense_schedule p);
          st = st\<lparr>liquid := liquid st - current_monthly_expense\<rparr>;
          st = (if \<not> min_assets_violated st \<and> liquid st < min_assets p
                then st\<lparr>min_assets_violated := True,
                        min_assets_violation_reason :=
                          Assets_fell_below_minimum (min_assets p) age1 age2\<rparr>
                else st);
          phase = (if person1_working \<and> person2_working then both_working
                   else if person1_working \<or> person2_working then one_working
                   else if \<not> pension1_income_active st \<and> \<not> pension2_income_active st
                     then bridge
                   else post_pension);
          total_income_to_liquid =
            net_income_this_month + total_pension_income_net + total_old_age_pension
              + hishtalmut1 + hishtalmut2 + one_time_event_amount;
          liquid_change = total_income_to_liquid - current_monthly_expense
      in st\<lparr>records := records st @
           [\<lparr>col_month = month, col_age1 = age1, col_age2 = age2, col_phase = phase,
             col_liquid = liquid st, col_pension1 = pension1 st, col_pension2 = pension2 st,
             col_salary1_gross = salary1_gross, col_salary1_net = salary1_net,
             col_hishtalmut1 = hishtalmut1,
             col_salary2_gross = salary2_gross, col_salary2_net = salary2_net,
             col_hishtalmut2 = hishtalmut2,
             col_pension1_income =
               (if pension1_income_active st then pension1_income_month st else 0),
             col_pension2_income =
               (if pension2_income_active st then pension2_income_month st else 0),
             col_pension1_income_net = pension_net_p1,
             col_pension2_income_net = pension_net_p2,
             col_one_time_event = one_time_event_amount,
             col_total_pension_income = total_pension_income_net,
             col_old_age_pension = total_old_age_pension,
             col_monthly_expense = current_monthly_expense,
             col_liquid_change = liquid_change,
             col_person1_working = person1_working,
             col_person2_working = person2_working\<rparr>]\<rparr>)"

text \<open>
  One iteration of the month loop.  With a complex monthly rate the balances are
  complex after the returns; the first comparison on one of them (the \<^verbatim>\<open>max\<close> of the
  payout block, at the latest the floor check of the first month) raises, after the
  two activations had their chance to divide by zero.
\<close>

definition month_step ::
  "real \<Rightarrow> Params \<Rightarrow> real \<Rightarrow> nat \<Rightarrow> sim_state \<Rightarrow> py_error + sim_state" where
  "month_step retire_age' p spouse_retire_age' month st =
     (case income_stage retire_age' p spouse_retire_age' month st of
        (st1, w1, w2, one_time_event_amount) \<Rightarrow>
          (case activate_pension1 p (age1_at p month) st1 of
             Inl e \<Rightarrow> Inl e
           | Inr st2 \<Rightarrow>
               (case activate_pension2 p (age2_at p month) st2 of
                  Inl e \<Rightarrow> Inl e
                | Inr st3 \<Rightarrow>
                    if rate_is_complex p then Inl TypeError
                    else Inr (close_month p month w1 w2 one_time_event_amount st3))))"

text \<open>The loop \<^verbatim>\<open>for month in range(total_months)\<close> over a list of months.\<close>

fun run_months ::
  "real \<Rightarrow> Params \<Rightarrow> real \<Rightarrow> nat list \<Rightarrow> sim_state \<Rightarrow> py_error + sim_state" where
  "run_months retire_age' p spouse_retire_age' [] st = Inr st"
| "run_months retire_age' p spouse_retire_age' (month # rest) st =
     (case month_step retire_age' p spouse_retire_age' month st of
        Inl e \<Rightarrow> Inl e
      | Inr st' \<Rightarrow> run_months retire_age' p spouse_retire_age' rest st')"

text \<open>The three return statements after the loop.\<close>

definition verdict :: "Params \<Rightarrow> sim_state \<Rightarrow> Result" where
  "verdict p st =
     (let liquid_end' = liquid st in
      if min_assets_violated st then
        \<lparr>ok = False, reason = min_assets_violation_reason st, df = records st,
         pension_at_start = pension1 st,
         pension_income_month = pension1_income_month st,
         spouse_pension_at_start = pension2 st,
         spouse_pension_income_month = pension2_income_month st,
         liquid_end = liquid_end',
         liquid_at_pension_start = liquid_at_first_pension_start st\<rparr>
      else if liquid_end' < min_assets p then
        \<lparr>ok = False, reason = Assets_below_minimum_at_end (min_assets p) liquid_end',
         df = records st,
         pension_at_start = pension1 st,
         pension_income_month = pension1_income_month st,
         spouse_pension_at_start = pension2 st,
         spouse_pension_income_month = pension2_income_month st,
         liquid_end = liquid_end',
         liquid_at_pension_start = liquid_at_first_pension_start st\<rparr>
      else
        \<lparr>ok = True, reason = Feasible_scenario, df = records st,
         pension_at_start = (if pension1_income_active st then pension1 st else 0),
         pension_income_month = pension1_income_month st,
         spouse_pension_at_start = (if pension2_income_active st then pension2 st else 0),
         spouse_pension_income_month = pension2_income_month st,
         liquid_end = liquid_end',
         liquid_at_pension_start = liquid_at_first_pension_start st\<rparr>)"

text \<open>
  The state after the first \<open>n\<close> months, and the state after the whole loop; a negative
  month count gives the empty range.
\<close>

definition state_after ::
  "real \<Rightarrow> Params \<Rightarrow> real \<Rightarrow> nat \<Rightarrow> py_error + sim_state" where
  "state_after retire_age' p spouse_retire_age' n =
     run_months retire_age' p spouse_retire_age' [0..<n] (initial_state p)"

definition final_state :: "real \<Rightarrow> Params \<Rightarrow> real \<Rightarrow> py_error + sim_state" where
  "final_state retire_age' p spouse_retire_age' =
     state_after retire_age' p spouse_retire_age' (nat (total_months p))"

definition simulate :: "real \<Rightarrow> Params \<Rightarrow> real option \<Rightarrow> py_error + Result" where
  "simulate retire_age' p spouse_retire_age_opt =
     (let spouse_retire_age' =
            (case spouse_retire_age_opt of None \<Rightarrow> spouse_retire_age p | Some a \<Rightarrow> a)
      in case validate retire_age' p spouse_retire_age' of
           Some rsn \<Rightarrow> Inr (invalid_result rsn)
         | None \<Rightarrow>
             (case final_state retire_age' p spouse_retire_age' of
                Inl e \<Rightarrow> Inl e
              | Inr st \<Rightarrow> Inr (verdict p st)))"

section \<open>Scenario search\<close>

subsection \<open>Earliest retirement age of person 1\<close>

text \<open>
  \<^verbatim>\<open>range(0, stop, step)\<close> as a list: \<open>\<lceil>stop / step\<rceil>\<close> elements when that is positive,
  none otherwise, and a \<^verbatim>\<open>ValueError\<close> for step zero.
\<close>

definition py_range :: "int \<Rightarrow> int \<Rightarrow> py_error + int list" where
  "py_range stop step =
     (if step = 0 then Inl ValueError
      else Inr (map (\<lambda>k. int k * step) [0..<nat (- ((- stop) div step))]))"

type_synonym search_result = "real option \<times> Result option"

fun earliest_loop ::
  "Params \<Rightarrow> real \<Rightarrow> real \<Rightarrow> real \<Rightarrow> int list \<Rightarrow> py_error + search_result" where
  "earliest_loop p min_age max_age spouse_retire_age' [] = Inr (None, None)"
| "earliest_loop p min_age max_age spouse_retire_age' (m # ms) =
     (let retire_age0 = min_age + real_of_int m / 12;
          retire_age' = (if retire_age0 > max_age then max_age else retire_age0)
      in case simulate retire_age' p (Some spouse_retire_age') of
           Inl e \<Rightarrow> Inl e
         | Inr result \<Rightarrow>
             if ok result then Inr (Some retire_age', Some result)
             else if retire_age' \<ge> max_age then Inr (None, None)
             else earliest_loop p min_age max_age spouse_retire_age' ms)"

definition find_earliest_retirement ::
  "Params \<Rightarrow> real option \<Rightarrow> real option \<Rightarrow> real option \<Rightarrow> int
     \<Rightarrow> py_error + search_result" where
  "find_earliest_retirement p min_age_opt max_age_opt spouse_retire_age_opt step_months =
     (let min_age = (case min_age_opt of None \<Rightarrow> age_now p | Some a \<Rightarrow> a);
          max_age = (case max_age_opt of None \<Rightarrow> pension_start_age p | Some a \<Rightarrow> a);
          spouse_retire_age' =
            (case spouse_retire_age_opt of None \<Rightarrow> spouse_retire_age p | Some a \<Rightarrow> a);
          min_age = (if min_age < age_now p then age_now p else min_age);
          max_age = (if max_age > pension_start_age p then pension_start_age p else max_age)
      in if min_age > max_age then Inr (None, None)
         else
           let total_months' = py_round ((max_age - min_age) * 12) in
           case py_range (total_months' + 1) step_months of
             Inl e \<Rightarrow> Inl e
           | Inr ms \<Rightarrow> earliest_loop p min_age max_age spouse_retire_age' ms)"

subsection \<open>Maximum monthly expense\<close>

text \<open>The \<^verbatim>\<open>Params(...)\<close> call of the bisection: every field copied, the expense replaced.\<close>

definition test_params :: "Params \<Rightarrow> real \<Rightarrow> Params" where
  "test_params p mid =
     \<lparr>age_now = age_now p,
      retire_age = retire_age p,
      pension_start_age = pension_start_age p,
      income_schedule = income_schedule p,
      spouse_age_now = spouse_age_now p,
      spouse_retire_age = spouse_retire_age p,
      spouse_pension_start_age = spouse_pension_start_age p,
      spouse_income_schedule = spouse_income_schedule p,
      one_time_events = one_time_events p,
      expense_schedule = expense_schedule p,
      end_age = end_age p,
      r_annual_real = r_annual_real p,
      gross_income_month = gross_income_month p,
      pension_rate = pension_rate p,
      pension_rate_employer = pension_rate_employer p,
      hishtalmut_rate_employee = hishtalmut_rate_employee p,
      hishtalmut_rate_employer = hishtalmut_rate_employer p,
      hishtalmut_salary_cap = hishtalmut_salary_cap p,
      spouse_gross_income_month = spouse_gross_income_month p,
      spouse_pension_rate = spouse_pension_rate p,
      spouse_pension_rate_employer = spouse_pension_rate_employer p,
      spouse_hishtalmut_rate_employee = spouse_hishtalmut_rate_employee p,
      spouse_hishtalmut_rate_employer = spouse_hishtalmut_rate_employer p,
      spouse_hishtalmut_salary_cap = spouse_hishtalmut_salary_cap p,
      spend_month = mid,
      liquid_now = liquid_now p,
      pension_now = pension_now p,
      spouse_pension_now = spouse_pension_now p,
      min_assets = min_assets p,
      mekadem = mekadem p,
      spouse_mekadem = spouse_mekadem p,
      old_age_pension_month = old_age_pension_month p,
      old_age_pension_start_age = old_age_pension_start_age p,
      pension_tax_free_amount = pension_tax_free_amount p\<rparr>"

text \<open>
  The loop variables of the bisection: \<^verbatim>\<open>low\<close>, \<^verbatim>\<open>high\<close>, \<^verbatim>\<open>best_spend\<close>,
  \<^verbatim>\<open>best_result\<close>.  The first argument of the loop that is a number of iterations
  counts the iterations left of \<^verbatim>\<open>range(max_iterations)\<close>.
\<close>

type_synonym bisect_state = "real \<times> real \<times> real option \<times> Result option"

definition meets_target :: "real \<Rightarrow> real \<Rightarrow> Result \<Rightarrow> bool" where
  "meets_target target_end_assets tolerance result =
     (ok result \<and> liquid_end result \<ge> target_end_assets - tolerance)"

fun bisect_loop ::
  "real \<Rightarrow> Params \<Rightarrow> real \<Rightarrow> real \<Rightarrow> real \<Rightarrow> nat \<Rightarrow> bisect_state
     \<Rightarrow> py_error + bisect_state" where
  "bisect_loop retire_age' p spouse_retire_age' target_end_assets tolerance 0 s = Inr s"
| "bisect_loop retire_age' p spouse_retire_age' target_end_assets tolerance (Suc n)
     (low, high, best_spend, best_result) =
     (let mid = (low + high) / 2 in
      case simulate retire_age' (test_params p mid) (Some spouse_retire_age') of
        Inl e \<Rightarrow> Inl e
      | Inr result \<Rightarrow>
          let s' = (if meets_target target_end_assets tolerance result
                    then (mid, high, Some mid, Some result)
                    else (low, mid, best_spend, best_result))
          in if fst (snd s') - fst s' < tolerance / 10 then Inr s'
             else bisect_loop retire_age' p spouse_retire_age' target_end_assets
                    tolerance n s')"

definition initial_high :: "Params \<Rightarrow> real" where
  "initial_high p =
     (let older_age_now = max (age_now p) (spouse_age_now p);
          total_months' = py_round ((end_age p - older_age_now) * 12);
          max_estimate = liquid_now p * 2
            + (gross_income_month p + spouse_gross_income_month p) * of_int total_months'
      in if total_months' > 0 then max_estimate / of_int total_months' else 1000000)"

definition find_max_monthly_expense ::
  "Params \<Rightarrow> real \<Rightarrow> real option \<Rightarrow> real option \<Rightarrow> real \<Rightarrow> int
     \<Rightarrow> py_error + search_result" where
  "find_max_monthly_expense p target_end_assets retire_age_opt spouse_retire_age_opt
     tolerance max_iterations =
     (let retire_age' = (case retire_age_opt of None \<Rightarrow> retire_age p | Some a \<Rightarrow> a);
          spouse_retire_age' =
            (case spouse_retire_age_opt of None \<Rightarrow> spouse_retire_age p | Some a \<Rightarrow> a);
          low = 0;
          high = initial_high p
      in case bisect_loop retire_age' p spouse_retire_age' target_end_assets tolerance
                (nat max_iterations) (low, high, None, None) of
           Inl e \<Rightarrow> Inl e
         | Inr (low, high, best_spend, best_result) \<Rightarrow>
             (case (best_spend, best_result) of
                (Some spend, Some result) \<Rightarrow>
                  if meets_target target_end_assets tolerance result
                  then Inr (Some spend, Some result)
                  else Inr (None, None)
              | _ \<Rightarrow> Inr (None, None)))"

section \<open>Reference notions for the properties\<close>

text \<open>The default values of the \<^verbatim>\<open>Params\<close> dataclass.\<close>

definition default_params :: Params where
  "default_params =
     \<lparr>age_now = 38, retire_age = 65, pension_start_age = 67, income_schedule = None,
      spouse_age_now = 36, spouse_retire_age = 65, spouse_pension_start_age = 67,
      spouse_income_schedule = None, one_time_events = None, expense_schedule = None,
      end_age = 95, r_annual_real = 3 / 100,
      gross_income_month = 18000, pension_rate = 6 / 100,
      pension_rate_employer = 125 / 1000, hishtalmut_rate_employee = 25 / 1000,
      hishtalmut_rate_employer = 75 / 1000, hishtalmut_salary_cap = 15712,
      spouse_gross_income_month = 15000, spouse_pension_rate = 6 / 100,
      spouse_pension_rate_employer = 125 / 1000,
      spouse_hishtalmut_rate_employee = 25 / 1000,
      spouse_hishtalmut_rate_employer = 75 / 1000, spouse_hishtalmut_salary_cap = 15712,
      spend_month = 16000, liquid_now = 300000, pension_now = 400000,
      spouse_pension_now = 350000, min_assets = 150000, mekadem = 230,
      spouse_mekadem = 230, old_age_pension_month = 2000,
      old_age_pension_start_age = 70, pension_tax_free_amount = 5000\<rparr>"

text \<open>
  The retirement age of person 2 that \<^verbatim>\<open>simulate\<close> works with: the argument, or the
  parameter set's own when the argument is absent.
\<close>

definition effective_spouse_retire_age :: "Params \<Rightarrow> real option \<Rightarrow> real" where
  "effective_spouse_retire_age p spouse_retire_age_opt =
     (case spouse_retire_age_opt of None \<Rightarrow> spouse_retire_age p | Some a \<Rightarrow> a)"



text \<open>A parameter set whose horizon lies before the current ages.\<close>

definition past_horizon_params :: Params where
  "past_horizon_params = default_params\<lparr>end_age := 30\<rparr>"

text \<open>
  The one-time events that a month applies: the indexed events whose trigger age the
  age of person 1 has reached and whose index is not among the applied ones; and the
  sum of their signed amounts.
\<close>

definition due_events :: "Params \<Rightarrow> real \<Rightarrow> nat set \<Rightarrow> (nat \<times> event) list" where
  "due_events p age1 applied =
     filter (\<lambda>(idx, event_age, amount, description). age1 \<ge> event_age \<and> idx \<notin> applied)
       (enumerate 0 (opt_list (one_time_events p)))"

definition event_amounts :: "(nat \<times> event) list \<Rightarrow> real" where
  "event_amounts evs = sum_list (map (\<lambda>(idx, event_age, amount, description). amount) evs)"

text \<open>
  What a month's salary block yields for each person: (gross salary, net salary,
  hishtalmut, pension contribution), all zero from the retirement age on.
\<close>

definition work1 :: "real \<Rightarrow> Params \<Rightarrow> nat \<Rightarrow> real \<times> real \<times> real \<times> real" where
  "work1 retire_age' p month =
     (if age1_at p month < retire_age' then salary_p1 p (age1_at p month) else (0, 0, 0, 0))"

definition work2 :: "real \<Rightarrow> Params \<Rightarrow> nat \<Rightarrow> real \<times> real \<times> real \<times> real" where
  "work2 spouse_retire_age' p month =
     (if age2_at p month < spouse_retire_age' then salary_p2 p (age2_at p month)
      else (0, 0, 0, 0))"

text \<open>
  The net salary of a person at the base gross income, with no schedule and no
  contribution deducted: gross income less tax.
\<close>

definition net_of_gross :: "real \<Rightarrow> real" where
  "net_of_gross gross = gross - calculate_monthly_tax_from_gross gross"

text \<open>
  The hypotheses of the additive cash-flow property: zero annual return, zero pension
  and hishtalmut contribution rates for both persons (employee and employer), and no
  income or expense schedule.
\<close>

definition flat_cash_flow :: "Params \<Rightarrow> bool" where
  "flat_cash_flow p \<longleftrightarrow>
     r_annual_real p = 0
     \<and> pension_rate p = 0 \<and> pension_rate_employer p = 0
     \<and> hishtalmut_rate_employee p = 0 \<and> hishtalmut_rate_employer p = 0
     \<and> spouse_pension_rate p = 0 \<and> spouse_pension_rate_employer p = 0
     \<and> spouse_hishtalmut_rate_employee p = 0 \<and> spouse_hishtalmut_rate_employer p = 0
     \<and> opt_list (income_schedule p) = [] \<and> opt_list (spouse_income_schedule p) = []
     \<and> opt_list (expense_schedule p) = []"

text \<open>
  A month without one-time event, pension payout or old-age pension: person 1 is
  below every trigger age of the events, both persons are below their pension start
  age and below the old-age pension start age.
\<close>

definition quiet_month :: "Params \<Rightarrow> nat \<Rightarrow> bool" where
  "quiet_month p month \<longleftrightarrow>
     list_all (\<lambda>(event_age, amount, description). age1_at p month < event_age)
       (opt_list (one_time_events p))
     \<and> age1_at p month < pension_start_age p
     \<and> age2_at p month < spouse_pension_start_age p
     \<and> age1_at p month < old_age_pension_start_age p
     \<and> age2_at p month < old_age_pension_start_age p"

text \<open>The net salaries of a month at the base incomes, by who is still working.\<close>

definition base_net_income :: "real \<Rightarrow> Params \<Rightarrow> real \<Rightarrow> nat \<Rightarrow> real" where
  "base_net_income retire_age' p spouse_retire_age' month =
     (if age1_at p month < retire_age' then net_of_gross (gross_income_month p) else 0)
     + (if age2_at p month < spouse_retire_age'
        then net_of_gross (spouse_gross_income_month p) else 0)"

text \<open>Liquid assets after the first \<open>n\<close> months of a run.\<close>

definition liquid_after :: "real \<Rightarrow> Params \<Rightarrow> real \<Rightarrow> nat \<Rightarrow> py_error + real" where
  "liquid_after retire_age' p spouse_retire_age' n =
     (case state_after retire_age' p spouse_retire_age' n of
        Inl e \<Rightarrow> Inl e
      | Inr st \<Rightarrow> Inr (liquid st))"

text \<open>The state that a run is in as long as every month was quiet.\<close>

definition quiet_state :: "sim_state \<Rightarrow> bool" where
  "quiet_state st \<longleftrightarrow>
     \<not> pension1_income_active st \<and> \<not> pension2_income_active st
     \<and> \<not> old_age_pension1_active st \<and> \<not> old_age_pension2_active st
     \<and> applied_events st = {}"

text \<open>
  Concrete parameter sets: the defaults with zero return and zero contribution rates,
  person 2 without income and retired from the start; and the same with a horizon of
  one month and the floor at the balance which that month ends with.
\<close>

definition flat_params :: Params where
  "flat_params =
     default_params\<lparr>r_annual_real := 0,
       pension_rate := 0, pension_rate_employer := 0,
       hishtalmut_rate_employee := 0, hishtalmut_rate_employer := 0,
       spouse_pension_rate := 0, spouse_pension_rate_employer := 0,
       spouse_hishtalmut_rate_employee := 0, spouse_hishtalmut_rate_employer := 0,
       spouse_gross_income_month := 0, spouse_retire_age := 36\<rparr>"

definition touch_params :: Params where
  "touch_params = flat_params\<lparr>end_age := 38 + 1 / 12, min_assets := 284000\<rparr>"

text \<open>The one-month parameter set with the floor one unit above the balance reached.\<close>

definition breach_params :: Params where
  "breach_params = touch_params\<lparr>min_assets := 284001\<rparr>"

text \<open>
  Notions for the rows of a run: the first month at which an age track reaches an
  age; the balances that a month starts from (those of the previous row, or the
  starting ones); trigger age and amount of the one-time event with a given index;
  and that a month applies that event (its index is among the applied ones after the
  month and not before).
\<close>

definition first_month_at :: "(nat \<Rightarrow> real) \<Rightarrow> real \<Rightarrow> nat \<Rightarrow> bool" where
  "first_month_at age_at a m \<longleftrightarrow> a \<le> age_at m \<and> (\<forall>k<m. age_at k < a)"

definition prev_liquid :: "Params \<Rightarrow> month_record list \<Rightarrow> nat \<Rightarrow> real" where
  "prev_liquid p rows m = (if m = 0 then liquid_now p else col_liquid (rows ! (m - 1)))"

definition prev_pension1 :: "Params \<Rightarrow> month_record list \<Rightarrow> nat \<Rightarrow> real" where
  "prev_pension1 p rows m = (if m = 0 then pension_now p else col_pension1 (rows ! (m - 1)))"

definition prev_pension2 :: "Params \<Rightarrow> month_record list \<Rightarrow> nat \<Rightarrow> real" where
  "prev_pension2 p rows m =
     (if m = 0 then spouse_pension_now p else col_pension2 (rows ! (m - 1)))"

definition event_age_of :: "Params \<Rightarrow> nat \<Rightarrow> real" where
  "event_age_of p i = fst (opt_list (one_time_events p) ! i)"

definition event_amount_of :: "Params \<Rightarrow> nat \<Rightarrow> real" where
  "event_amount_of p i = fst (snd (opt_list (one_time_events p) ! i))"

definition applied_in_month :: "real \<Rightarrow> Params \<Rightarrow> real \<Rightarrow> nat \<Rightarrow> nat \<Rightarrow> bool" where
  "applied_in_month retire_age' p spouse_retire_age' m i =
     (case (state_after retire_age' p spouse_retire_age' m,
            state_after retire_age' p spouse_retire_age' (Suc m)) of
        (Inr st, Inr st') \<Rightarrow> i \<in> applied_events st' \<and> i \<notin> applied_events st
      | _ \<Rightarrow> False)"

text \<open>The indices of the one-time events applied by the end of a run.\<close>

definition events_applied :: "real \<Rightarrow> Params \<Rightarrow> real \<Rightarrow> py_error + nat set" where
  "events_applied retire_age' p spouse_retire_age' =
     (case final_state retire_age' p spouse_retire_age' of
        Inl e \<Rightarrow> Inl e
      | Inr st \<Rightarrow> Inr (applied_events st))"

text \<open>
  The defaults with an inheritance at age 55, and with one at the horizon age 95.
\<close>

definition inheritance_params :: Params where
  "inheritance_params =
     default_params\<lparr>one_time_events := Some [(55, 1000000, ''Inheritance'')]\<rparr>"

definition late_event_params :: Params where
  "late_event_params =
     default_params\<lparr>one_time_events := Some [(95, 1000000, ''Inheritance'')]\<rparr>"

text \<open>
  Reference notions for the scan of \<open>find_earliest_retirement\<close>: the clamped bounds;
  the month offsets \<open>0, step, 2 * step, \<dots>\<close> up to the month count; the candidate ages
  (the offsets added to the lower bound, clamped to the upper bound, up to and
  including the first one that reaches the upper bound); and the first feasible
  candidate of a list of ages, person 2's retirement age held fixed.
\<close>

definition earliest_lo :: "Params \<Rightarrow> real option \<Rightarrow> real" where
  "earliest_lo p min_age_opt =
     max (case min_age_opt of None \<Rightarrow> age_now p | Some a \<Rightarrow> a) (age_now p)"

definition earliest_hi :: "Params \<Rightarrow> real option \<Rightarrow> real" where
  "earliest_hi p max_age_opt =
     min (case max_age_opt of None \<Rightarrow> pension_start_age p | Some a \<Rightarrow> a)
       (pension_start_age p)"

definition scan_months :: "int \<Rightarrow> int \<Rightarrow> int list" where
  "scan_months month_count step =
     (if step > 0 then map (\<lambda>k. int k * step) [0..<nat (month_count div step + 1)]
      else [])"

definition scan_ages :: "real \<Rightarrow> real \<Rightarrow> int \<Rightarrow> real list" where
  "scan_ages lo hi step =
     (let ages = map (\<lambda>m. min (lo + real_of_int m / 12) hi)
                   (scan_months (py_round ((hi - lo) * 12)) step)
      in takeWhile (\<lambda>a. a < hi) ages @ take 1 (dropWhile (\<lambda>a. a < hi) ages))"

fun first_feasible :: "Params \<Rightarrow> real \<Rightarrow> real list \<Rightarrow> py_error + search_result" where
  "first_feasible p spouse_retire_age' [] = Inr (None, None)"
| "first_feasible p spouse_retire_age' (a # as) =
     (case simulate a p (Some spouse_retire_age') of
        Inl e \<Rightarrow> Inl e
      | Inr result \<Rightarrow>
          if ok result then Inr (Some a, Some result)
          else first_feasible p spouse_retire_age' as)"

text \<open>A candidate age at which the simulation returns an infeasible result.\<close>

definition infeasible_at :: "Params \<Rightarrow> real \<Rightarrow> real \<Rightarrow> bool" where
  "infeasible_at p spouse_retire_age' a =
     (case simulate a p (Some spouse_retire_age') of Inl e \<Rightarrow> False | Inr result \<Rightarrow> \<not> ok result)"

text \<open>
  Reference notions for the bisection of \<open>find_max_monthly_expense\<close>: the midpoints it
  simulates, in order, from a bracket and a number of iterations left; that the
  simulation at a midpoint returns a feasible result meeting the target; and, for a
  counterexample, that a search returned a result whose end assets are not within
  the tolerance of the target.
\<close>

fun bisect_mids ::
  "real \<Rightarrow> Params \<Rightarrow> real \<Rightarrow> real \<Rightarrow> real \<Rightarrow> nat \<Rightarrow> real \<times> real \<Rightarrow> real list" where
  "bisect_mids retire_age' p spouse_retire_age' target_end_assets tolerance 0 bracket = []"
| "bisect_mids retire_age' p spouse_retire_age' target_end_assets tolerance (Suc n) (low, high) =
     (let mid = (low + high) / 2 in
      case simulate retire_age' (p\<lparr>spend_month := mid\<rparr>) (Some spouse_retire_age') of
        Inl e \<Rightarrow> [mid]
      | Inr result \<Rightarrow>
          let bracket' = (if meets_target target_end_assets tolerance result
                          then (mid, high) else (low, mid))
          in if snd bracket' - fst bracket' < tolerance / 10 then [mid]
             else mid # bisect_mids retire_age' p spouse_retire_age' target_end_assets
                          tolerance n bracket')"

definition meets_at :: "real \<Rightarrow> Params \<Rightarrow> real \<Rightarrow> real \<Rightarrow> real \<Rightarrow> real \<Rightarrow> bool" where
  "meets_at retire_age' p spouse_retire_age' target_end_assets tolerance mid =
     (case simulate retire_age' (p\<lparr>spend_month := mid\<rparr>) (Some spouse_retire_age') of
        Inl e \<Rightarrow> False
      | Inr result \<Rightarrow> meets_target target_end_assets tolerance result)"

definition misses_at :: "real \<Rightarrow> Params \<Rightarrow> real \<Rightarrow> real \<Rightarrow> real \<Rightarrow> real \<Rightarrow> bool" where
  "misses_at retire_age' p spouse_retire_age' target_end_assets tolerance mid =
     (case simulate retire_age' (p\<lparr>spend_month := mid\<rparr>) (Some spouse_retire_age') of
        Inl e \<Rightarrow> False
      | Inr result \<Rightarrow> \<not> meets_target target_end_assets tolerance result)"

definition effective_retire_age :: "Params \<Rightarrow> real option \<Rightarrow> real" where
  "effective_retire_age p retire_age_opt =
     (case retire_age_opt of None \<Rightarrow> retire_age p | Some a \<Rightarrow> a)"

definition off_target :: "real \<Rightarrow> real \<Rightarrow> py_error + search_result \<Rightarrow> bool" where
  "off_target target_end_assets tolerance found =
     (case found of
        Inr (Some spend, Some result) \<Rightarrow>
          \<not> \<bar>liquid_end result - target_end_assets\<bar> \<le> tolerance
      | _ \<Rightarrow> False)"

text \<open>
  The zero-return, zero-contribution parameter set with a horizon of one month and a
  floor of 2000.
\<close>

definition floor_params :: Params where
  "floor_params = flat_params\<lparr>end_age := 38 + 1 / 12, min_assets := 2000\<rparr>"

section \<open>Verification\<close>

subsection \<open>Schedule resolver\<close>

lemma sorted_le_last:
  fixes xs :: "real list"
  shows "sorted xs \<Longrightarrow> x \<in> set xs \<Longrightarrow> x \<le> last xs"
  by (induction xs) auto

lemma last_applicable_is_latest:
  fixes sch :: schedule
  assumes "sorted (map fst sch)" and "filter (\<lambda>(a, v). a \<le> age) sch \<noteq> []"
  defines "e \<equiv> last (filter (\<lambda>(a, v). a \<le> age) sch)"
  shows "e \<in> set sch \<and> fst e \<le> age \<and> (\<forall>e'\<in>set sch. fst e' \<le> age \<longrightarrow> fst e' \<le> fst e)"
proof -
  let ?app = "filter (\<lambda>(a, v). a \<le> age) sch"
  have mem: "e \<in> set ?app" unfolding e_def using assms(2) by (rule last_in_set)
  have srt: "sorted (map fst ?app)" using assms(1) by (rule sorted_filter)
  have lst: "last (map fst ?app) = fst e" unfolding e_def using assms(2) by (simp add: last_map)
  have "fst e' \<le> fst e" if "e' \<in> set sch" "fst e' \<le> age" for e'
  proof -
    have "e' \<in> set ?app" using that by (simp add: case_prod_unfold)
    then have "fst e' \<in> set (map fst ?app)" by (simp del: set_filter)
    with srt have "fst e' \<le> last (map fst ?app)" by (rule sorted_le_last)
    with lst show ?thesis by simp
  qed
  with mem show ?thesis by (auto split: prod.splits)
qed

text \<open>
  C3.  Both resolvers return the base value for an absent or empty schedule; with a
  single entry \<open>(a1, v1)\<close> they return the base below \<open>a1\<close> and \<open>v1\<close> from \<open>a1\<close> on;
  they agree on every input; and on a schedule sorted ascending by effective age they
  return the value of an entry whose effective age is the largest one that is at most
  the query age, or the base value when no entry qualifies.
\<close>

theorem schedule_resolver_latest_entry:
  "get_income_at_age age base None = base
   \<and> get_income_at_age age base (Some []) = base
   \<and> get_expense_at_age age base None = base
   \<and> get_expense_at_age age base (Some []) = base
   \<and> get_income_at_age age base (Some [(a1, v1)]) = (if age < a1 then base else v1)
   \<and> get_expense_at_age age base (Some [(a1, v1)]) = (if age < a1 then base else v1)
   \<and> get_expense_at_age age base sched = get_income_at_age age base sched
   \<and> (sorted (map fst sch) \<longrightarrow>
        (if \<exists>e\<in>set sch. fst e \<le> age
         then \<exists>e\<in>set sch. fst e \<le> age
                \<and> (\<forall>e'\<in>set sch. fst e' \<le> age \<longrightarrow> fst e' \<le> fst e)
                \<and> get_income_at_age age base (Some sch) = snd e
                \<and> get_expense_at_age age base (Some sch) = snd e
         else get_income_at_age age base (Some sch) = base
                \<and> get_expense_at_age age base (Some sch) = base))"
proof -
  have eq: "get_expense_at_age age base s = get_income_at_age age base s" for s
    by (simp add: get_expense_at_age_def get_income_at_age_def)
  have srt: "(if \<exists>e\<in>set sch. fst e \<le> age
         then \<exists>e\<in>set sch. fst e \<le> age
                \<and> (\<forall>e'\<in>set sch. fst e' \<le> age \<longrightarrow> fst e' \<le> fst e)
                \<and> get_income_at_age age base (Some sch) = snd e
         else get_income_at_age age base (Some sch) = base)" if s: "sorted (map fst sch)"
  proof (cases "\<exists>e\<in>set sch. fst e \<le> age")
    case True
    then have ne: "filter (\<lambda>(a, v). a \<le> age) sch \<noteq> []"
      by (auto simp: filter_empty_conv)
    then have "sch \<noteq> []" by auto
    with ne have "get_income_at_age age base (Some sch) = snd (last (filter (\<lambda>(a, v). a \<le> age) sch))"
      by (simp add: get_income_at_age_def)
    with last_applicable_is_latest [OF s ne] True show ?thesis by auto
  next
    case False
    then have "filter (\<lambda>(a, v). a \<le> age) sch = []"
      by (auto simp: filter_empty_conv)
    with False show ?thesis by (simp add: get_income_at_age_def)
  qed
  have single: "get_income_at_age age base (Some [(a1, v1)]) = (if age < a1 then base else v1)"
    by (simp add: get_income_at_age_def)
  have empties: "get_income_at_age age base None = base" "get_income_at_age age base (Some []) = base"
    by (simp_all add: get_income_at_age_def)
  show ?thesis
    unfolding eq using srt single empties by (cases "\<exists>e\<in>set sch. fst e \<le> age") simp_all
qed

theorem schedule_resolver_latest_entry_witness:
  "sorted (map fst [(40, 100), (50, 200 :: real)] :: real list)
   \<and> get_income_at_age 45 7 (Some [(40, 100), (50, 200)]) = 100
   \<and> get_expense_at_age 55 7 (Some [(40, 100), (50, 200)]) = 200
   \<and> get_income_at_age 39 7 (Some [(40, 100), (50, 200)]) = 7"
  using schedule_resolver_latest_entry [of 45 7 40 100 "Some [(40, 100), (50, 200)]" "[(40, 100), (50, 200)]"]
  by (simp add: get_income_at_age_def get_expense_at_age_def)

subsection \<open>Input validation\<close>












lemma simulate_invalid:
  "validate ra p (effective_spouse_retire_age p sopt) = Some r
     \<Longrightarrow> simulate ra p sopt = Inr (invalid_result r)"
  by (simp add: simulate_def effective_spouse_retire_age_def)

lemma simulate_valid:
  "validate ra p (effective_spouse_retire_age p sopt) = None
     \<Longrightarrow> simulate ra p sopt =
          (case final_state ra p (effective_spouse_retire_age p sopt) of
             Inl e \<Rightarrow> Inl e | Inr st \<Rightarrow> Inr (verdict p st))"
  by (simp add: simulate_def effective_spouse_retire_age_def)



subsection \<open>The month loop\<close>

lemma run_months_append:
  "run_months ra p sra (xs @ ys) st =
     (case run_months ra p sra xs st of Inl e \<Rightarrow> Inl e | Inr st' \<Rightarrow> run_months ra p sra ys st')"
  by (induction xs arbitrary: st) (auto split: sum.splits)

lemma state_after_0: "state_after ra p sra 0 = Inr (initial_state p)"
  by (simp add: state_after_def)

lemma state_after_Suc:
  "state_after ra p sra (Suc n) =
     (case state_after ra p sra n of Inl e \<Rightarrow> Inl e | Inr st \<Rightarrow> month_step ra p sra n st)"
  by (simp add: state_after_def run_months_append split: sum.splits)

lemma state_after_Suc_Inr:
  assumes "state_after ra p sra (Suc n) = Inr st'"
  obtains st where "state_after ra p sra n = Inr st" "month_step ra p sra n st = Inr st'"
  using assms by (auto simp: state_after_Suc split: sum.splits)

lemma state_after_mono:
  "state_after ra p sra n = Inr st \<Longrightarrow> k \<le> n \<Longrightarrow> \<exists>st'. state_after ra p sra k = Inr st'"
proof (induction n arbitrary: st)
  case 0
  then show ?case by simp
next
  case (Suc n)
  then show ?case
    by (cases "k = Suc n") (auto elim!: state_after_Suc_Inr)
qed

lemma month_step_Inr:
  assumes "month_step ra p sra m st = Inr st'"
  obtains st1 w1 w2 ev st2 st3 where
    "income_stage ra p sra m st = (st1, w1, w2, ev)"
    "activate_pension1 p (age1_at p m) st1 = Inr st2"
    "activate_pension2 p (age2_at p m) st2 = Inr st3"
    "\<not> rate_is_complex p"
    "st' = close_month p m w1 w2 ev st3"
  using assms unfolding month_step_def
  by (auto split: prod.splits sum.splits if_splits)

text \<open>The old-age activation touches its two flags only.\<close>

lemma activate_old_age_fields:
  "liquid (activate_old_age p a1 a2 st) = liquid st"
  "pension1 (activate_old_age p a1 a2 st) = pension1 st"
  "pension2 (activate_old_age p a1 a2 st) = pension2 st"
  "pension1_income_active (activate_old_age p a1 a2 st) = pension1_income_active st"
  "pension1_income_month (activate_old_age p a1 a2 st) = pension1_income_month st"
  "pension2_income_active (activate_old_age p a1 a2 st) = pension2_income_active st"
  "pension2_income_month (activate_old_age p a1 a2 st) = pension2_income_month st"
  "liquid_at_first_pension_start (activate_old_age p a1 a2 st) = liquid_at_first_pension_start st"
  "first_pension_started (activate_old_age p a1 a2 st) = first_pension_started st"
  "min_assets_violated (activate_old_age p a1 a2 st) = min_assets_violated st"
  "min_assets_violation_reason (activate_old_age p a1 a2 st) = min_assets_violation_reason st"
  "applied_events (activate_old_age p a1 a2 st) = applied_events st"
  "records (activate_old_age p a1 a2 st) = records st"
  "old_age_pension1_active (activate_old_age p a1 a2 st) \<longleftrightarrow>
     old_age_pension1_active st \<or> a1 \<ge> old_age_pension_start_age p"
  "old_age_pension2_active (activate_old_age p a1 a2 st) \<longleftrightarrow>
     old_age_pension2_active st \<or> a2 \<ge> old_age_pension_start_age p"
  by (auto simp: activate_old_age_def Let_def)

text \<open>What the closing stage leaves in the state.\<close>

lemma close_month_records:
  "\<exists>r. records (close_month p m w1 w2 ev st) = records st @ [r]
       \<and> col_liquid r = liquid (close_month p m w1 w2 ev st)
       \<and> col_pension1 r = pension1 (close_month p m w1 w2 ev st)
       \<and> col_pension2 r = pension2 (close_month p m w1 w2 ev st)
       \<and> col_month r = m"
  by (cases w1; cases w2) (simp add: close_month_def Let_def activate_old_age_fields)

lemma close_month_violated:
  "min_assets_violated (close_month p m w1 w2 ev st) \<longleftrightarrow>
     min_assets_violated st \<or> liquid (close_month p m w1 w2 ev st) < min_assets p"
  by (cases w1; cases w2) (simp add: close_month_def Let_def activate_old_age_fields)

lemma activate_pension1_other:
  "activate_pension1 p a st = Inr st' \<Longrightarrow>
     records st' = records st \<and> min_assets_violated st' = min_assets_violated st
     \<and> liquid st' = liquid st \<and> applied_events st' = applied_events st
     \<and> pension1 st' = pension1 st \<and> pension2 st' = pension2 st"
  by (auto simp: activate_pension1_def Let_def split: if_splits)

lemma activate_pension2_other:
  "activate_pension2 p a st = Inr st' \<Longrightarrow>
     records st' = records st \<and> min_assets_violated st' = min_assets_violated st
     \<and> liquid st' = liquid st \<and> applied_events st' = applied_events st
     \<and> pension1 st' = pension1 st \<and> pension2 st' = pension2 st"
  by (auto simp: activate_pension2_def Let_def split: if_splits)

lemma income_stage_other:
  "income_stage ra p sra m st = (st1, w1, w2, ev) \<Longrightarrow>
     records st1 = records st \<and> min_assets_violated st1 = min_assets_violated st"
  by (auto simp: income_stage_def Let_def apply_returns_def split: prod.splits if_splits)

lemma month_step_records:
  assumes "month_step ra p sra m st = Inr st'"
  shows "\<exists>r. records st' = records st @ [r] \<and> col_liquid r = liquid st'
           \<and> col_pension1 r = pension1 st' \<and> col_pension2 r = pension2 st' \<and> col_month r = m"
proof -
  from assms obtain st1 w1 w2 ev st2 st3 where
    s: "income_stage ra p sra m st = (st1, w1, w2, ev)"
    "activate_pension1 p (age1_at p m) st1 = Inr st2"
    "activate_pension2 p (age2_at p m) st2 = Inr st3"
    "st' = close_month p m w1 w2 ev st3"
    by (rule month_step_Inr)
  have "records st3 = records st"
    using income_stage_other [OF s(1)] activate_pension1_other [OF s(2)]
      activate_pension2_other [OF s(3)] by simp
  with close_month_records [of p m w1 w2 ev st3] s(4) show ?thesis by simp
qed

lemma month_step_violated:
  assumes "month_step ra p sra m st = Inr st'"
  shows "min_assets_violated st' \<longleftrightarrow> min_assets_violated st \<or> liquid st' < min_assets p"
proof -
  from assms obtain st1 w1 w2 ev st2 st3 where
    s: "income_stage ra p sra m st = (st1, w1, w2, ev)"
    "activate_pension1 p (age1_at p m) st1 = Inr st2"
    "activate_pension2 p (age2_at p m) st2 = Inr st3"
    "st' = close_month p m w1 w2 ev st3"
    by (rule month_step_Inr)
  have "min_assets_violated st3 = min_assets_violated st"
    using income_stage_other [OF s(1)] activate_pension1_other [OF s(2)]
      activate_pension2_other [OF s(3)] by simp
  with close_month_violated [of p m w1 w2 ev st3] s(4) show ?thesis by simp
qed

lemma month_step_returns:
  assumes "mekadem p \<noteq> 0" "spouse_mekadem p \<noteq> 0" "\<not> rate_is_complex p"
  shows "\<exists>st'. month_step ra p sra m st = Inr st'"
  using assms
  by (simp add: month_step_def activate_pension1_def activate_pension2_def Let_def
        split: prod.splits sum.splits)

lemma state_after_returns:
  assumes "mekadem p \<noteq> 0" "spouse_mekadem p \<noteq> 0" "\<not> rate_is_complex p"
  shows "\<exists>st. state_after ra p sra n = Inr st"
proof (induction n)
  case 0
  show ?case by (simp add: state_after_0)
next
  case (Suc n)
  then obtain st where "state_after ra p sra n = Inr st" by blast
  with month_step_returns [OF assms, of ra sra n st] show ?case
    by (auto simp: state_after_Suc)
qed

text \<open>Invariants of the loop: the rows recorded so far and the violation flag.\<close>

lemma state_after_records:
  assumes "state_after ra p sra n = Inr st"
  shows "length (records st) = n
         \<and> (min_assets_violated st \<longleftrightarrow> (\<exists>r\<in>set (records st). col_liquid r < min_assets p))
         \<and> liquid st = (if n = 0 then liquid_now p else col_liquid (last (records st)))
         \<and> pension1 st = (if n = 0 then pension_now p else col_pension1 (last (records st)))
         \<and> pension2 st = (if n = 0 then spouse_pension_now p else col_pension2 (last (records st)))"
  using assms
proof (induction n arbitrary: st)
  case 0
  then show ?case by (auto simp: state_after_0 initial_state_def)
next
  case (Suc n)
  from Suc.prems obtain st0 where
    st0: "state_after ra p sra n = Inr st0" and step: "month_step ra p sra n st0 = Inr st"
    by (rule state_after_Suc_Inr)
  from month_step_records [OF step] obtain r where
    r: "records st = records st0 @ [r]" "col_liquid r = liquid st"
       "col_pension1 r = pension1 st" "col_pension2 r = pension2 st"
    by blast
  from Suc.IH [OF st0] month_step_violated [OF step] r show ?case by auto
qed

lemma state_after_prefix:
  assumes "state_after ra p sra n = Inr st" "state_after ra p sra k = Inr st'" "k \<le> n"
  shows "records st' = take k (records st)"
  using assms
proof (induction n arbitrary: st)
  case 0
  then show ?case by (auto simp: state_after_0 initial_state_def)
next
  case (Suc n)
  show ?case
  proof (cases "k = Suc n")
    case True
    with Suc.prems state_after_records [OF Suc.prems(1)] show ?thesis by simp
  next
    case False
    from Suc.prems(1) obtain st0 where
      st0: "state_after ra p sra n = Inr st0" and step: "month_step ra p sra n st0 = Inr st"
      by (rule state_after_Suc_Inr)
    from month_step_records [OF step] obtain r where r: "records st = records st0 @ [r]"
      by blast
    from False Suc.prems have "k \<le> n" by simp
    from Suc.IH [OF st0 Suc.prems(2) this] state_after_records [OF st0] r \<open>k \<le> n\<close>
    show ?thesis by simp
  qed
qed

lemma verdict_fields:
  "ok (verdict p st) \<longleftrightarrow> \<not> min_assets_violated st \<and> \<not> liquid st < min_assets p"
  "df (verdict p st) = records st"
  "liquid_end (verdict p st) = liquid st"
  "pension_income_month (verdict p st) = pension1_income_month st"
  "spouse_pension_income_month (verdict p st) = pension2_income_month st"
  by (simp_all add: verdict_def Let_def)

lemma simulate_valid_Inr:
  assumes "validate ra p (effective_spouse_retire_age p sopt) = None"
    and "simulate ra p sopt = Inr r"
  obtains st where "final_state ra p (effective_spouse_retire_age p sopt) = Inr st"
    "r = verdict p st"
  using assms by (auto simp: simulate_valid split: sum.splits)

subsection \<open>Verdict and series\<close>

lemma state_after_months:
  assumes "state_after ra p sra n = Inr st" "k < n"
  shows "col_month (records st ! k) = k"
  using assms
proof (induction n arbitrary: st)
  case 0
  then show ?case by simp
next
  case (Suc n)
  from Suc.prems(1) obtain st0 where
    st0: "state_after ra p sra n = Inr st0" and step: "month_step ra p sra n st0 = Inr st"
    by (rule state_after_Suc_Inr)
  from month_step_records [OF step] obtain r where
    r: "records st = records st0 @ [r]" "col_month r = n" by blast
  from state_after_records [OF st0] have len: "length (records st0) = n" by simp
  show ?case
  proof (cases "k = n")
    case True
    with r len show ?thesis by (simp add: nth_append)
  next
    case False
    with Suc.prems(2) have "k < n" by simp
    with Suc.IH [OF st0 this] r len show ?thesis by (simp add: nth_append)
  qed
qed

lemma simulate_returns:
  assumes "mekadem p \<noteq> 0" "spouse_mekadem p \<noteq> 0" "\<not> rate_is_complex p"
  shows "\<exists>r. simulate ra p sopt = Inr r"
proof (cases "validate ra p (effective_spouse_retire_age p sopt)")
  case None
  from state_after_returns [OF assms] obtain st where
    "final_state ra p (effective_spouse_retire_age p sopt) = Inr st"
    unfolding final_state_def by blast
  with None show ?thesis by (simp add: simulate_valid)
next
  case (Some rsn)
  then show ?thesis by (simp add: simulate_invalid)
qed

text \<open>
  C1, as amended.  On a parameter set that passes validation, \<open>simulate\<close> returns a
  result whenever both payout divisors are non-zero and \<open>1 + r_annual_real\<close> is not
  negative.  Every result it returns is infeasible exactly when the liquid assets of
  some recorded month (taken after the expense deduction) are below the floor or the
  final liquid assets are; and it carries one row per simulated month, numbered in
  order: \<open>max 0 (round ((end_age - max age_now spouse_age_now) * 12))\<close> rows, which is
  none when the horizon lies before the current age of the older person.
\<close>

theorem simulate_verdict_and_series:
  assumes "validate ra p (effective_spouse_retire_age p sopt) = None"
  shows "(mekadem p \<noteq> 0 \<and> spouse_mekadem p \<noteq> 0 \<and> \<not> rate_is_complex p
            \<longrightarrow> (\<exists>r. simulate ra p sopt = Inr r))
         \<and> (\<forall>r. simulate ra p sopt = Inr r \<longrightarrow>
               (ok r = False \<longleftrightarrow>
                  (\<exists>row\<in>set (df r). col_liquid row < min_assets p)
                  \<or> liquid_end r < min_assets p)
               \<and> int (length (df r)) = max 0 (total_months p)
               \<and> (\<forall>k < length (df r). col_month (df r ! k) = k))"
proof -
  have results: "(ok r = False \<longleftrightarrow>
        (\<exists>row\<in>set (df r). col_liquid row < min_assets p) \<or> liquid_end r < min_assets p)
      \<and> int (length (df r)) = max 0 (total_months p)
      \<and> (\<forall>k < length (df r). col_month (df r ! k) = k)"
    if "simulate ra p sopt = Inr r" for r
  proof -
    from assms that obtain st where
      st: "state_after ra p (effective_spouse_retire_age p sopt) (nat (total_months p)) = Inr st"
      and r: "r = verdict p st"
      unfolding final_state_def [symmetric] by (rule simulate_valid_Inr)
    note inv = state_after_records [OF st]
    from inv r have "ok r = False \<longleftrightarrow>
        (\<exists>row\<in>set (df r). col_liquid row < min_assets p) \<or> liquid_end r < min_assets p"
      by (auto simp: verdict_fields)
    moreover from inv r have "int (length (df r)) = max 0 (total_months p)"
      by (simp add: verdict_fields)
    moreover from inv r state_after_months [OF st]
    have "\<forall>k < length (df r). col_month (df r ! k) = k"
      by (simp add: verdict_fields)
    ultimately show ?thesis by blast
  qed
  with simulate_returns [of p ra sopt] show ?thesis by blast
qed

lemma default_params_valid:
  "validate 65 default_params (effective_spouse_retire_age default_params None) = None"
  by (simp add: validate_def effective_spouse_retire_age_def default_params_def opt_list_def)

lemma default_params_total_months: "total_months default_params = 684"
  by (simp add: total_months_def default_params_def py_round_def)

theorem simulate_verdict_and_series_witness:
  "validate 65 default_params (effective_spouse_retire_age default_params None) = None
   \<and> mekadem default_params \<noteq> 0 \<and> spouse_mekadem default_params \<noteq> 0
   \<and> \<not> rate_is_complex default_params
   \<and> (\<exists>r. simulate 65 default_params None = Inr r \<and> length (df r) = 684)"
proof -
  have c: "mekadem default_params \<noteq> 0" "spouse_mekadem default_params \<noteq> 0"
    "\<not> rate_is_complex default_params"
    by (simp_all add: default_params_def rate_is_complex_def)
  note T = simulate_verdict_and_series [OF default_params_valid]
  from T c obtain r where r: "simulate 65 default_params None = Inr r" by blast
  with T have "int (length (df r)) = max 0 (total_months default_params)" by blast
  then have "length (df r) = 684" by (simp add: default_params_total_months)
  with r c default_params_valid show ?thesis by blast
qed

lemma past_horizon_valid:
  "validate 65 past_horizon_params (effective_spouse_retire_age past_horizon_params None) = None"
  by (simp add: validate_def effective_spouse_retire_age_def past_horizon_params_def
        default_params_def opt_list_def)

lemma past_horizon_total_months: "total_months past_horizon_params = - 96"
  by (simp add: total_months_def past_horizon_params_def default_params_def py_round_def)

theorem series_length_counterexample:
  "validate 65 past_horizon_params (effective_spouse_retire_age past_horizon_params None) = None
   \<and> simulate 65 past_horizon_params None =
       Inr \<lparr>ok = True, reason = Feasible_scenario, df = [],
            pension_at_start = 0, pension_income_month = 0,
            spouse_pension_at_start = 0, spouse_pension_income_month = 0,
            liquid_end = 300000, liquid_at_pension_start = 0\<rparr>
   \<and> total_months past_horizon_params = - 96"
proof -
  have "final_state 65 past_horizon_params (effective_spouse_retire_age past_horizon_params None)
        = Inr (initial_state past_horizon_params)"
    by (simp add: final_state_def past_horizon_total_months state_after_0)
  then have sim: "simulate 65 past_horizon_params None
        = Inr (verdict past_horizon_params (initial_state past_horizon_params))"
    by (simp add: simulate_valid [OF past_horizon_valid])
  have "verdict past_horizon_params (initial_state past_horizon_params) =
       \<lparr>ok = True, reason = Feasible_scenario, df = [],
        pension_at_start = 0, pension_income_month = 0,
        spouse_pension_at_start = 0, spouse_pension_income_month = 0,
        liquid_end = 300000, liquid_at_pension_start = 0\<rparr>"
    by (simp add: verdict_def initial_state_def past_horizon_params_def default_params_def)
  with sim past_horizon_valid past_horizon_total_months show ?thesis by simp
qed

subsection \<open>One month, stage by stage\<close>

lemma apply_events_enumerate:
  "apply_events age1 (enumerate k evs) (liq, tot, applied) =
     (let due = filter (\<lambda>(idx, event_age, amount, description).
                          age1 \<ge> event_age \<and> idx \<notin> applied) (enumerate k evs)
      in (liq + event_amounts due, tot + event_amounts due, applied \<union> fst ` set due))"
proof (induction evs arbitrary: k liq tot applied)
  case Nil
  show ?case by (simp add: event_amounts_def)
next
  case (Cons e es)
  obtain event_age amount description where e: "e = (event_age, amount, description)"
    by (cases e) auto
  have later: "filter (\<lambda>(idx, event_age, amount, description).
                   age1 \<ge> event_age \<and> idx \<notin> insert k applied) (enumerate (Suc k) es)
             = filter (\<lambda>(idx, event_age, amount, description).
                   age1 \<ge> event_age \<and> idx \<notin> applied) (enumerate (Suc k) es)"
    by (rule filter_cong) (auto simp: in_set_enumerate_eq)
  show ?case
  proof (cases "age1 \<ge> event_age \<and> k \<notin> applied")
    case True
    then show ?thesis
      using Cons.IH [of "Suc k" "liq + amount" "tot + amount" "insert k applied", unfolded later]
      by (simp add: e Let_def event_amounts_def)
  next
    case False
    then show ?thesis
      using Cons.IH [of "Suc k" liq tot applied]
      by (auto simp: e Let_def event_amounts_def)
  qed
qed

lemma income_stage_eq:
  "income_stage ra p sra m st =
     (case work1 ra p m of (g1, n1, h1, c1) \<Rightarrow>
      case work2 sra p m of (g2, n2, h2, c2) \<Rightarrow>
        (st\<lparr>liquid := liquid st * (1 + r_month p) + h1 + h2 + (n1 + n2)
                + event_amounts (due_events p (age1_at p m) (applied_events st)),
            pension1 := pension1 st * (1 + r_month p) + c1,
            pension2 := pension2 st * (1 + r_month p) + c2,
            applied_events := applied_events st
                \<union> fst ` set (due_events p (age1_at p m) (applied_events st))\<rparr>,
         (age1_at p m < ra, g1, n1, h1), (age2_at p m < sra, g2, n2, h2),
         event_amounts (due_events p (age1_at p m) (applied_events st))))"
  unfolding income_stage_def work1_def work2_def due_events_def
  by (cases "salary_p1 p (age1_at p m)"; cases "salary_p2 p (age2_at p m)")
     (simp add: Let_def apply_returns_def apply_events_enumerate)

lemma activate_pension1_eq:
  assumes "activate_pension1 p a st = Inr st'"
  shows "pension1_income_active st' \<longleftrightarrow> pension1_income_active st \<or> a \<ge> pension_start_age p"
    and "pension1_income_month st' =
           (if \<not> pension1_income_active st \<and> a \<ge> pension_start_age p
            then pension1 st / mekadem p else pension1_income_month st)"
    and "\<not> pension1_income_active st \<and> a \<ge> pension_start_age p \<longrightarrow> mekadem p \<noteq> 0"
    and "pension2_income_active st' = pension2_income_active st"
    and "pension2_income_month st' = pension2_income_month st"
    and "old_age_pension1_active st' = old_age_pension1_active st"
    and "old_age_pension2_active st' = old_age_pension2_active st"
  using assms by (auto simp: activate_pension1_def Let_def split: if_splits)

lemma activate_pension2_eq:
  assumes "activate_pension2 p a st = Inr st'"
  shows "pension2_income_active st' \<longleftrightarrow>
           pension2_income_active st \<or> a \<ge> spouse_pension_start_age p"
    and "pension2_income_month st' =
           (if \<not> pension2_income_active st \<and> a \<ge> spouse_pension_start_age p
            then pension2 st / spouse_mekadem p else pension2_income_month st)"
    and "\<not> pension2_income_active st \<and> a \<ge> spouse_pension_start_age p
           \<longrightarrow> spouse_mekadem p \<noteq> 0"
    and "pension1_income_active st' = pension1_income_active st"
    and "pension1_income_month st' = pension1_income_month st"
    and "old_age_pension1_active st' = old_age_pension1_active st"
    and "old_age_pension2_active st' = old_age_pension2_active st"
  using assms by (auto simp: activate_pension2_def Let_def split: if_splits)

text \<open>The closing stage, field by field and column by column.\<close>

lemma close_month_state:
  fixes st :: sim_state and p m f1 g1 n1 h1 f2 g2 n2 h2 ev
  defines "st' \<equiv> close_month p m (f1, g1, n1, h1) (f2, g2, n2, h2) ev st"
  defines "pay1 \<equiv> (if pension1_income_active st then pension1_income_month st else 0)"
  defines "pay2 \<equiv> (if pension2_income_active st then pension2_income_month st else 0)"
  defines "net1 \<equiv> (if pension1_income_active st then pension_net p (pension1_income_month st) else 0)"
  defines "net2 \<equiv> (if pension2_income_active st then pension_net p (pension2_income_month st) else 0)"
  defines "oap \<equiv> (if old_age_pension1_active st \<or> age1_at p m \<ge> old_age_pension_start_age p
                    then old_age_pension_month p else 0)
                 + (if old_age_pension2_active st \<or> age2_at p m \<ge> old_age_pension_start_age p
                    then old_age_pension_month p else 0)"
  defines "expense \<equiv> get_expense_at_age (age1_at p m) (spend_month p) (expense_schedule p)"
  shows "liquid st' = liquid st + (net1 + net2) + oap - expense"
    and "pension1 st' = pension1 st - pay1"
    and "pension2 st' = pension2 st - pay2"
    and "pension1_income_active st' = pension1_income_active st"
    and "pension2_income_active st' = pension2_income_active st"
    and "pension1_income_month st' = pension1_income_month st"
    and "pension2_income_month st' = pension2_income_month st"
    and "applied_events st' = applied_events st"
    and "old_age_pension1_active st' \<longleftrightarrow>
           old_age_pension1_active st \<or> age1_at p m \<ge> old_age_pension_start_age p"
    and "old_age_pension2_active st' \<longleftrightarrow>
           old_age_pension2_active st \<or> age2_at p m \<ge> old_age_pension_start_age p"
  unfolding st'_def pay1_def pay2_def net1_def net2_def oap_def expense_def
  by (simp_all add: close_month_def Let_def activate_old_age_fields)

lemma close_month_row:
  fixes st :: sim_state and p m f1 g1 n1 h1 f2 g2 n2 h2 ev
  defines "st' \<equiv> close_month p m (f1, g1, n1, h1) (f2, g2, n2, h2) ev st"
  defines "row \<equiv> last (records st')"
  defines "pay1 \<equiv> (if pension1_income_active st then pension1_income_month st else 0)"
  defines "pay2 \<equiv> (if pension2_income_active st then pension2_income_month st else 0)"
  defines "net1 \<equiv> (if pension1_income_active st then pension_net p (pension1_income_month st) else 0)"
  defines "net2 \<equiv> (if pension2_income_active st then pension_net p (pension2_income_month st) else 0)"
  defines "oap \<equiv> (if old_age_pension1_active st \<or> age1_at p m \<ge> old_age_pension_start_age p
                    then old_age_pension_month p else 0)
                 + (if old_age_pension2_active st \<or> age2_at p m \<ge> old_age_pension_start_age p
                    then old_age_pension_month p else 0)"
  defines "expense \<equiv> get_expense_at_age (age1_at p m) (spend_month p) (expense_schedule p)"
  shows "records st' = records st @ [row]"
    and "col_month row = m" and "col_age1 row = age1_at p m" and "col_age2 row = age2_at p m"
    and "col_liquid row = liquid st'"
    and "col_pension1 row = pension1 st'" and "col_pension2 row = pension2 st'"
    and "col_person1_working row = f1" and "col_salary1_gross row = g1"
    and "col_salary1_net row = n1" and "col_hishtalmut1 row = h1"
    and "col_person2_working row = f2" and "col_salary2_gross row = g2"
    and "col_salary2_net row = n2" and "col_hishtalmut2 row = h2"
    and "col_pension1_income row = pay1" and "col_pension2_income row = pay2"
    and "col_pension1_income_net row = net1" and "col_pension2_income_net row = net2"
    and "col_total_pension_income row = net1 + net2"
    and "col_one_time_event row = ev"
    and "col_old_age_pension row = oap"
    and "col_monthly_expense row = expense"
    and "col_liquid_change row = n1 + n2 + (net1 + net2) + oap + h1 + h2 + ev - expense"
  unfolding st'_def row_def pay1_def pay2_def net1_def net2_def oap_def expense_def
  by (simp_all add: close_month_def Let_def activate_old_age_fields)

text \<open>
  One month as a whole.  The state after a month that returns, and the row it
  appends, in terms of the state before it.
\<close>

lemma month_step_state:
  assumes "month_step ra p sra m st = Inr st'"
  defines "a1 \<equiv> age1_at p m" and "a2 \<equiv> age2_at p m"
  defines "c1 \<equiv> snd (snd (snd (work1 ra p m)))" and "c2 \<equiv> snd (snd (snd (work2 sra p m)))"
  defines "start1 \<equiv> \<not> pension1_income_active st \<and> a1 \<ge> pension_start_age p"
  defines "start2 \<equiv> \<not> pension2_income_active st \<and> a2 \<ge> spouse_pension_start_age p"
  shows "pension1_income_active st' \<longleftrightarrow> pension1_income_active st \<or> a1 \<ge> pension_start_age p"
    and "pension2_income_active st' \<longleftrightarrow>
           pension2_income_active st \<or> a2 \<ge> spouse_pension_start_age p"
    and "pension1_income_month st' =
           (if start1 then (pension1 st * (1 + r_month p) + c1) / mekadem p
            else pension1_income_month st)"
    and "pension2_income_month st' =
           (if start2 then (pension2 st * (1 + r_month p) + c2) / spouse_mekadem p
            else pension2_income_month st)"
    and "start1 \<longrightarrow> mekadem p \<noteq> 0" and "start2 \<longrightarrow> spouse_mekadem p \<noteq> 0"
    and "pension1 st' = pension1 st * (1 + r_month p) + c1
           - (if pension1_income_active st' then pension1_income_month st' else 0)"
    and "pension2 st' = pension2 st * (1 + r_month p) + c2
           - (if pension2_income_active st' then pension2_income_month st' else 0)"
    and "applied_events st' =
           applied_events st \<union> fst ` set (due_events p a1 (applied_events st))"
    and "old_age_pension1_active st' \<longleftrightarrow>
           old_age_pension1_active st \<or> a1 \<ge> old_age_pension_start_age p"
    and "old_age_pension2_active st' \<longleftrightarrow>
           old_age_pension2_active st \<or> a2 \<ge> old_age_pension_start_age p"
    and "\<not> rate_is_complex p"
proof -
  from assms(1) obtain st1 w1 w2 ev st2 st3 where
    s: "income_stage ra p sra m st = (st1, w1, w2, ev)"
      "activate_pension1 p (age1_at p m) st1 = Inr st2"
      "activate_pension2 p (age2_at p m) st2 = Inr st3"
      "st' = close_month p m w1 w2 ev st3"
    and nc: "\<not> rate_is_complex p"
    by (rule month_step_Inr)
  obtain g1 n1 h1 c1' where w1: "work1 ra p m = (g1, n1, h1, c1')" by (cases "work1 ra p m") auto
  obtain g2 n2 h2 c2' where w2: "work2 sra p m = (g2, n2, h2, c2')" by (cases "work2 sra p m") auto
  from s(1) have eq:
    "st1 = st\<lparr>liquid := liquid st * (1 + r_month p) + h1 + h2 + (n1 + n2)
                + event_amounts (due_events p (age1_at p m) (applied_events st)),
            pension1 := pension1 st * (1 + r_month p) + c1',
            pension2 := pension2 st * (1 + r_month p) + c2',
            applied_events := applied_events st
                \<union> fst ` set (due_events p (age1_at p m) (applied_events st))\<rparr>"
    and ws: "w1 = (a1 < ra, g1, n1, h1)" "w2 = (a2 < sra, g2, n2, h2)"
    by (auto simp: income_stage_eq w1 w2 a1_def a2_def)
  have st1:
    "pension1 st1 = pension1 st * (1 + r_month p) + c1"
    "pension2 st1 = pension2 st * (1 + r_month p) + c2"
    "applied_events st1 = applied_events st \<union> fst ` set (due_events p a1 (applied_events st))"
    "pension1_income_active st1 = pension1_income_active st"
    "pension2_income_active st1 = pension2_income_active st"
    "pension1_income_month st1 = pension1_income_month st"
    "pension2_income_month st1 = pension2_income_month st"
    "old_age_pension1_active st1 = old_age_pension1_active st"
    "old_age_pension2_active st1 = old_age_pension2_active st"
    by (simp_all add: eq w1 w2 c1_def c2_def a1_def a2_def)
  note p1 = activate_pension1_eq [OF s(2)] activate_pension1_other [OF s(2)]
  note p2 = activate_pension2_eq [OF s(3)] activate_pension2_other [OF s(3)]
  note cl = close_month_state [of p m "a1 < ra" g1 n1 h1 "a2 < sra" g2 n2 h2 ev st3,
      folded ws]
  show "pension1_income_active st' \<longleftrightarrow> pension1_income_active st \<or> a1 \<ge> pension_start_age p"
    using cl(4) p1(1) p2(4) st1 by (simp add: s(4) a1_def)
  show "pension2_income_active st' \<longleftrightarrow>
           pension2_income_active st \<or> a2 \<ge> spouse_pension_start_age p"
    using cl(5) p1(4) p2(1) st1 by (simp add: s(4) a2_def)
  show m1: "pension1_income_month st' =
           (if start1 then (pension1 st * (1 + r_month p) + c1) / mekadem p
            else pension1_income_month st)"
    using cl(6) p1(2) p2(5) st1 by (simp add: s(4) a1_def start1_def)
  show m2: "pension2_income_month st' =
           (if start2 then (pension2 st * (1 + r_month p) + c2) / spouse_mekadem p
            else pension2_income_month st)"
    using cl(7) p1 p2(2) st1 by (simp add: s(4) a2_def start2_def)
  show "start1 \<longrightarrow> mekadem p \<noteq> 0" using p1(3) st1 by (simp add: a1_def start1_def)
  show "start2 \<longrightarrow> spouse_mekadem p \<noteq> 0" using p2(3) p1 st1 by (simp add: a2_def start2_def)
  show "pension1 st' = pension1 st * (1 + r_month p) + c1
           - (if pension1_income_active st' then pension1_income_month st' else 0)"
    using cl(2) cl(4) cl(6) p1 p2 st1 by (simp add: s(4))
  show "pension2 st' = pension2 st * (1 + r_month p) + c2
           - (if pension2_income_active st' then pension2_income_month st' else 0)"
    using cl(3) cl(5) cl(7) p1 p2 st1 by (simp add: s(4))
  show "applied_events st' =
           applied_events st \<union> fst ` set (due_events p a1 (applied_events st))"
    using cl(8) p1 p2 st1 by (simp add: s(4))
  show "old_age_pension1_active st' \<longleftrightarrow>
           old_age_pension1_active st \<or> a1 \<ge> old_age_pension_start_age p"
    using cl(9) p1 p2 st1 by (simp add: s(4) a1_def)
  show "old_age_pension2_active st' \<longleftrightarrow>
           old_age_pension2_active st \<or> a2 \<ge> old_age_pension_start_age p"
    using cl(10) p1 p2 st1 by (simp add: s(4) a2_def)
  show "\<not> rate_is_complex p" by (rule nc)
qed

lemma month_step_row:
  assumes "month_step ra p sra m st = Inr st'"
  defines "row \<equiv> last (records st')"
  defines "a1 \<equiv> age1_at p m" and "a2 \<equiv> age2_at p m"
  shows "records st' = records st @ [row]"
    and "col_month row = m" and "col_age1 row = a1" and "col_age2 row = a2"
    and "col_liquid row = liquid st'"
    and "col_pension1 row = pension1 st'" and "col_pension2 row = pension2 st'"
    and "col_person1_working row \<longleftrightarrow> a1 < ra"
    and "col_salary1_gross row = fst (work1 ra p m)"
    and "col_salary1_net row = fst (snd (work1 ra p m))"
    and "col_hishtalmut1 row = fst (snd (snd (work1 ra p m)))"
    and "col_person2_working row \<longleftrightarrow> a2 < sra"
    and "col_salary2_gross row = fst (work2 sra p m)"
    and "col_salary2_net row = fst (snd (work2 sra p m))"
    and "col_hishtalmut2 row = fst (snd (snd (work2 sra p m)))"
    and "col_pension1_income row =
           (if pension1_income_active st' then pension1_income_month st' else 0)"
    and "col_pension2_income row =
           (if pension2_income_active st' then pension2_income_month st' else 0)"
    and "col_pension1_income_net row =
           (if pension1_income_active st' then pension_net p (pension1_income_month st') else 0)"
    and "col_pension2_income_net row =
           (if pension2_income_active st' then pension_net p (pension2_income_month st') else 0)"
    and "col_total_pension_income row =
           col_pension1_income_net row + col_pension2_income_net row"
    and "col_one_time_event row = event_amounts (due_events p a1 (applied_events st))"
    and "col_old_age_pension row =
           (if old_age_pension1_active st' then old_age_pension_month p else 0)
           + (if old_age_pension2_active st' then old_age_pension_month p else 0)"
    and "col_monthly_expense row = get_expense_at_age a1 (spend_month p) (expense_schedule p)"
    and "col_liquid_change row =
           col_salary1_net row + col_salary2_net row + col_total_pension_income row
           + col_old_age_pension row + col_hishtalmut1 row + col_hishtalmut2 row
           + col_one_time_event row - col_monthly_expense row"
    and "liquid st' = liquid st * (1 + r_month p) + col_liquid_change row"
proof -
  from assms(1) obtain st1 w1 w2 ev st2 st3 where
    s: "income_stage ra p sra m st = (st1, w1, w2, ev)"
      "activate_pension1 p (age1_at p m) st1 = Inr st2"
      "activate_pension2 p (age2_at p m) st2 = Inr st3"
      "st' = close_month p m w1 w2 ev st3"
    by (rule month_step_Inr)
  obtain g1 n1 h1 c1 where w1: "work1 ra p m = (g1, n1, h1, c1)" by (cases "work1 ra p m") auto
  obtain g2 n2 h2 c2 where w2: "work2 sra p m = (g2, n2, h2, c2)" by (cases "work2 sra p m") auto
  from s(1) have eq:
    "st1 = st\<lparr>liquid := liquid st * (1 + r_month p) + h1 + h2 + (n1 + n2)
                + event_amounts (due_events p (age1_at p m) (applied_events st)),
            pension1 := pension1 st * (1 + r_month p) + c1,
            pension2 := pension2 st * (1 + r_month p) + c2,
            applied_events := applied_events st
                \<union> fst ` set (due_events p (age1_at p m) (applied_events st))\<rparr>"
    and ws: "w1 = (a1 < ra, g1, n1, h1)" "w2 = (a2 < sra, g2, n2, h2)"
    and ev: "ev = event_amounts (due_events p a1 (applied_events st))"
    by (auto simp: income_stage_eq w1 w2 a1_def a2_def)
  have st1: "liquid st1 = liquid st * (1 + r_month p) + h1 + h2 + (n1 + n2) + ev"
    "records st1 = records st"
    by (simp_all add: eq ev a1_def)
  note p1 = activate_pension1_other [OF s(2)]
  note p2 = activate_pension2_other [OF s(3)]
  have st3: "liquid st3 = liquid st * (1 + r_month p) + h1 + h2 + (n1 + n2) + ev"
    "records st3 = records st"
    using st1 p1 p2 by simp_all
  note cs = close_month_state [of p m "a1 < ra" g1 n1 h1 "a2 < sra" g2 n2 h2 ev st3, folded ws]
  note cr = close_month_row [of p m "a1 < ra" g1 n1 h1 "a2 < sra" g2 n2 h2 ev st3, folded ws]
  show "records st' = records st @ [row]" using cr(1) st3 by (simp add: s(4) row_def)
  show "col_month row = m" using cr(2) by (simp add: s(4) row_def)
  show "col_age1 row = a1" using cr(3) by (simp add: s(4) row_def a1_def)
  show "col_age2 row = a2" using cr(4) by (simp add: s(4) row_def a2_def)
  show "col_liquid row = liquid st'" using cr(5) by (simp add: s(4) row_def)
  show "col_pension1 row = pension1 st'" using cr(6) by (simp add: s(4) row_def)
  show "col_pension2 row = pension2 st'" using cr(7) by (simp add: s(4) row_def)
  show "col_person1_working row \<longleftrightarrow> a1 < ra" using cr(8) by (simp add: s(4) row_def)
  show g1: "col_salary1_gross row = fst (work1 ra p m)" using cr(9) by (simp add: s(4) row_def w1)
  show n1: "col_salary1_net row = fst (snd (work1 ra p m))"
    using cr(10) by (simp add: s(4) row_def w1)
  show h1: "col_hishtalmut1 row = fst (snd (snd (work1 ra p m)))"
    using cr(11) by (simp add: s(4) row_def w1)
  show "col_person2_working row \<longleftrightarrow> a2 < sra" using cr(12) by (simp add: s(4) row_def)
  show "col_salary2_gross row = fst (work2 sra p m)" using cr(13) by (simp add: s(4) row_def w2)
  show n2: "col_salary2_net row = fst (snd (work2 sra p m))"
    using cr(14) by (simp add: s(4) row_def w2)
  show h2: "col_hishtalmut2 row = fst (snd (snd (work2 sra p m)))"
    using cr(15) by (simp add: s(4) row_def w2)
  show "col_pension1_income row =
           (if pension1_income_active st' then pension1_income_month st' else 0)"
    using cr(16) cs(4) cs(6) by (simp add: s(4) row_def)
  show "col_pension2_income row =
           (if pension2_income_active st' then pension2_income_month st' else 0)"
    using cr(17) cs(5) cs(7) by (simp add: s(4) row_def)
  show pn1: "col_pension1_income_net row =
           (if pension1_income_active st' then pension_net p (pension1_income_month st') else 0)"
    using cr(18) cs(4) cs(6) by (simp add: s(4) row_def)
  show pn2: "col_pension2_income_net row =
           (if pension2_income_active st' then pension_net p (pension2_income_month st') else 0)"
    using cr(19) cs(5) cs(7) by (simp add: s(4) row_def)
  show tp: "col_total_pension_income row =
           col_pension1_income_net row + col_pension2_income_net row"
    using cr(18) cr(19) cr(20) by (simp add: s(4) row_def)
  show ote: "col_one_time_event row = event_amounts (due_events p a1 (applied_events st))"
    using cr(21) by (simp add: s(4) row_def ev)
  show oa: "col_old_age_pension row =
           (if old_age_pension1_active st' then old_age_pension_month p else 0)
           + (if old_age_pension2_active st' then old_age_pension_month p else 0)"
    using cr(22) cs(9) cs(10) by (simp add: s(4) row_def)
  show ex: "col_monthly_expense row = get_expense_at_age a1 (spend_month p) (expense_schedule p)"
    using cr(23) by (simp add: s(4) row_def a1_def)
  show lc: "col_liquid_change row =
           col_salary1_net row + col_salary2_net row + col_total_pension_income row
           + col_old_age_pension row + col_hishtalmut1 row + col_hishtalmut2 row
           + col_one_time_event row - col_monthly_expense row"
    using cr(10) cr(11) cr(14) cr(15) cr(20) cr(21) cr(22) cr(23) cr(24)
    by (simp add: s(4) row_def)
  show "liquid st' = liquid st * (1 + r_month p) + col_liquid_change row"
    using cs(1) cr(24) st3(1) by (simp add: s(4) row_def)
qed

subsection \<open>Runs\<close>

lemma state_after_row:
  assumes "state_after ra p sra n = Inr stn" "m < n"
  obtains st st' where "state_after ra p sra m = Inr st"
    "state_after ra p sra (Suc m) = Inr st'"
    "month_step ra p sra m st = Inr st'"
    "records stn ! m = last (records st')"
proof -
  from assms state_after_mono [of ra p sra n stn "Suc m"] obtain st' where
    st': "state_after ra p sra (Suc m) = Inr st'" by auto
  then obtain st where st: "state_after ra p sra m = Inr st"
    and step: "month_step ra p sra m st = Inr st'"
    by (rule state_after_Suc_Inr)
  from assms have "records st' = take (Suc m) (records stn)"
    by (intro state_after_prefix [OF assms(1) st']) simp
  moreover from state_after_records [OF assms(1)] assms(2) have "m < length (records stn)"
    by simp
  ultimately have "records stn ! m = last (records st')"
    by (simp add: take_Suc_conv_app_nth)
  with st st' step that show thesis by blast
qed

subsection \<open>Months without event, payout or old-age pension\<close>

lemma r_month_zero: "r_annual_real p = 0 \<Longrightarrow> r_month p = 0"
  by (simp add: r_month_def)

lemma flat_work1:
  assumes "flat_cash_flow p"
  shows "work1 ra p m =
     (if age1_at p m < ra
      then (gross_income_month p, net_of_gross (gross_income_month p), 0, 0)
      else (0, 0, 0, 0))"
  using assms
  by (auto simp: flat_cash_flow_def work1_def salary_p1_def Let_def net_of_gross_def
        get_income_at_age_def opt_list_def split: option.splits)

lemma flat_work2:
  assumes "flat_cash_flow p"
  shows "work2 sra p m =
     (if age2_at p m < sra
      then (spouse_gross_income_month p, net_of_gross (spouse_gross_income_month p), 0, 0)
      else (0, 0, 0, 0))"
  using assms
  by (auto simp: flat_cash_flow_def work2_def salary_p2_def Let_def net_of_gross_def
        get_income_at_age_def opt_list_def split: option.splits)

lemma flat_expense:
  assumes "flat_cash_flow p"
  shows "get_expense_at_age a (spend_month p) (expense_schedule p) = spend_month p"
  using assms
  by (auto simp: flat_cash_flow_def get_expense_at_age_def opt_list_def split: option.splits)

lemma quiet_due_events:
  assumes "quiet_month p m"
  shows "due_events p (age1_at p m) applied = []"
proof -
  from assms have
    "\<forall>e\<in>set (opt_list (one_time_events p)). age1_at p m < fst e"
    by (auto simp: quiet_month_def list_all_iff)
  then show ?thesis
    by (fastforce simp: due_events_def filter_empty_conv in_set_enumerate_eq dest: nth_mem)
qed

lemma quiet_flat_step:
  assumes flat: "flat_cash_flow p" and quiet: "quiet_month p m"
    and st: "quiet_state st" and step: "month_step ra p sra m st = Inr st'"
  shows "quiet_state st'"
    and "liquid st' = liquid st + base_net_income ra p sra m - spend_month p"
proof -
  note S = month_step_state [OF step]
  note R = month_step_row [OF step]
  from quiet have q: "age1_at p m < pension_start_age p"
    "age2_at p m < spouse_pension_start_age p"
    "age1_at p m < old_age_pension_start_age p" "age2_at p m < old_age_pension_start_age p"
    by (simp_all add: quiet_month_def)
  from S(1,2,9,10,11) st q show qs: "quiet_state st'"
    by (simp add: quiet_state_def quiet_due_events [OF quiet])
  from flat have r0: "r_month p = 0" by (simp add: flat_cash_flow_def r_month_zero)
  have "col_liquid_change (last (records st')) = base_net_income ra p sra m - spend_month p"
    unfolding R(24) R(10) R(11) R(14) R(15) R(20) R(18) R(19) R(21) R(22) R(23)
    using qs
    by (simp add: flat_work1 [OF flat] flat_work2 [OF flat] flat_expense [OF flat]
          quiet_due_events [OF quiet] quiet_state_def base_net_income_def event_amounts_def)
  with R(25) r0 show "liquid st' = liquid st + base_net_income ra p sra m - spend_month p"
    by simp
qed

lemma quiet_flat_run:
  assumes flat: "flat_cash_flow p" and quiet: "\<forall>m<n. quiet_month p m"
    and st: "state_after ra p sra n = Inr st"
  shows "quiet_state st
         \<and> liquid st = liquid_now p + (\<Sum>m<n. base_net_income ra p sra m)
                         - real n * spend_month p"
  using quiet st
proof (induction n arbitrary: st)
  case 0
  then show ?case by (auto simp: state_after_0 initial_state_def quiet_state_def)
next
  case (Suc n)
  from Suc.prems(2) obtain st0 where
    st0: "state_after ra p sra n = Inr st0" and step: "month_step ra p sra n st0 = Inr st"
    by (rule state_after_Suc_Inr)
  from Suc.prems(1) have "\<forall>m<n. quiet_month p m" and qn: "quiet_month p n" by simp_all
  with Suc.IH [OF _ st0] have ih: "quiet_state st0"
    "liquid st0 = liquid_now p + (\<Sum>m<n. base_net_income ra p sra m) - real n * spend_month p"
    by simp_all
  from quiet_flat_step [OF flat qn ih(1) step] ih(2) show ?case
    by (simp add: algebra_simps)
qed

subsection \<open>Additive cash flow\<close>

lemma quiet_flat_step_returns:
  assumes flat: "flat_cash_flow p" and quiet: "quiet_month p m" and st: "quiet_state st"
  shows "\<exists>st'. month_step ra p sra m st = Inr st'"
proof -
  obtain st1 w1 w2 ev where s1: "income_stage ra p sra m st = (st1, w1, w2, ev)"
    by (cases "income_stage ra p sra m st") auto
  then have "pension1_income_active st1 = pension1_income_active st"
    "pension2_income_active st1 = pension2_income_active st"
    by (auto simp: income_stage_eq split: prod.splits)
  moreover from quiet have "age1_at p m < pension_start_age p"
    "age2_at p m < spouse_pension_start_age p"
    by (simp_all add: quiet_month_def)
  moreover from flat have "\<not> rate_is_complex p"
    by (simp add: flat_cash_flow_def rate_is_complex_def)
  ultimately show ?thesis
    using st
    by (simp add: month_step_def s1 activate_pension1_def activate_pension2_def quiet_state_def)
qed

lemma quiet_flat_run_returns:
  assumes flat: "flat_cash_flow p" and quiet: "\<forall>m<n. quiet_month p m"
  shows "\<exists>st. state_after ra p sra n = Inr st"
  using quiet
proof (induction n)
  case 0
  show ?case by (simp add: state_after_0)
next
  case (Suc n)
  then obtain st where st: "state_after ra p sra n = Inr st" by auto
  from Suc.prems have "\<forall>m<n. quiet_month p m" and qn: "quiet_month p n" by simp_all
  with quiet_flat_run [OF flat _ st] have "quiet_state st" by simp
  from quiet_flat_step_returns [OF flat qn this, of ra sra] st show ?case
    by (auto simp: state_after_Suc)
qed

lemma tax_18000: "calculate_monthly_tax_from_gross 18000 = 2257931 / 500"
  by (simp add: calculate_monthly_tax_from_gross_def calculate_income_tax_def
        calculate_national_insurance_def ISRAELI_TAX_BRACKETS_def NATIONAL_INSURANCE_def
        Let_def)

lemma net_of_gross_18000: "net_of_gross 18000 = 6742069 / 500"
  by (simp add: net_of_gross_def tax_18000)

lemma net_of_gross_0: "net_of_gross 0 = 0"
  by (simp add: net_of_gross_def calculate_monthly_tax_from_gross_def)

lemma flat_params_flat: "flat_cash_flow flat_params"
  by (simp add: flat_cash_flow_def flat_params_def default_params_def opt_list_def)

lemma flat_params_quiet: "m < 12 \<Longrightarrow> quiet_month flat_params m"
  by (simp add: quiet_month_def flat_params_def default_params_def opt_list_def
        age1_at_def age2_at_def)

text \<open>
  C7, as amended.  With zero annual return, zero pension and hishtalmut contribution
  rates and no income or expense schedule, over \<open>n\<close> months in which no one-time event
  comes due, no pension payout and no old-age pension is active, and the net salary
  income (gross less tax of each person still below the retirement age) is the same
  amount \<open>net\<close> in every month, the run returns through these months and the liquid
  assets after them are the starting liquid assets plus \<open>n\<close> times \<open>net\<close> less the
  monthly expense.
\<close>

theorem additive_cash_flow:
  assumes "flat_cash_flow p"
    and "\<forall>m<n. quiet_month p m"
    and "\<forall>m<n. base_net_income ra p sra m = net"
  shows "liquid_after ra p sra n = Inr (liquid_now p + real n * (net - spend_month p))"
proof -
  from quiet_flat_run_returns [OF assms(1,2)] obtain st where
    st: "state_after ra p sra n = Inr st" by blast
  from assms(3) have "(\<Sum>m<n. base_net_income ra p sra m) = real n * net" by simp
  with quiet_flat_run [OF assms(1,2) st] st show ?thesis
    by (simp add: liquid_after_def algebra_simps)
qed

theorem additive_cash_flow_witness:
  "flat_cash_flow flat_params \<and> quiet_month flat_params 0 \<and> quiet_month flat_params 1
   \<and> base_net_income 65 flat_params 65 0 = 6742069 / 500
   \<and> base_net_income 65 flat_params 65 1 = 6742069 / 500
   \<and> liquid_after 65 flat_params 65 2 = Inr (300000 + 2 * (6742069 / 500 - 16000))"
proof -
  have q: "\<forall>m<2. quiet_month flat_params m" by (simp add: flat_params_quiet)
  have b: "\<forall>m<2. base_net_income 65 flat_params 65 m = 6742069 / 500"
    by (auto simp: base_net_income_def net_of_gross_18000 net_of_gross_0 age1_at_def age2_at_def
          flat_params_def default_params_def less_Suc_eq numeral_2_eq_2)
  from additive_cash_flow [OF flat_params_flat q b]
  have "liquid_after 65 flat_params 65 2 = Inr (300000 + 2 * (6742069 / 500 - 16000))"
    by (simp add: flat_params_def default_params_def)
  with flat_params_flat q b show ?thesis by simp
qed

lemma retiring_valid:
  "validate (38 + 1 / 12) flat_params (effective_spouse_retire_age flat_params None) = None"
  by (simp add: validate_def effective_spouse_retire_age_def flat_params_def
        default_params_def opt_list_def)

theorem additive_cash_flow_counterexample:
  "flat_cash_flow flat_params
   \<and> validate (38 + 1 / 12) flat_params (effective_spouse_retire_age flat_params None) = None
   \<and> base_net_income (38 + 1 / 12) flat_params 36 0 = 6742069 / 500
   \<and> liquid_after (38 + 1 / 12) flat_params 36 2 = Inr (140742069 / 500)
   \<and> liquid_now flat_params + 2 * (6742069 / 500 - spend_month flat_params) = 73742069 / 250"
proof -
  have q: "\<forall>m<2. quiet_month flat_params m" by (simp add: flat_params_quiet)
  from quiet_flat_run_returns [OF flat_params_flat q] obtain st where
    st: "state_after (38 + 1 / 12) flat_params 36 2 = Inr st" by blast
  have b0: "base_net_income (38 + 1 / 12) flat_params 36 0 = 6742069 / 500"
    by (simp add: base_net_income_def net_of_gross_18000 age1_at_def age2_at_def
          flat_params_def default_params_def)
  have b1: "base_net_income (38 + 1 / 12) flat_params 36 1 = 0"
    by (simp add: base_net_income_def age1_at_def age2_at_def
          flat_params_def default_params_def)
  have "(\<Sum>m<2. base_net_income (38 + 1 / 12) flat_params 36 m) = 6742069 / 500"
    using b0 b1 by (simp add: numeral_2_eq_2)
  with quiet_flat_run [OF flat_params_flat q st]
  have "liquid st = liquid_now flat_params + 6742069 / 500 - 2 * spend_month flat_params"
    by simp
  then have "liquid st = 140742069 / 500"
    by (simp add: flat_params_def default_params_def)
  with st have "liquid_after (38 + 1 / 12) flat_params 36 2 = Inr (140742069 / 500)"
    by (simp add: liquid_after_def)
  moreover have
    "liquid_now flat_params + 2 * (6742069 / 500 - spend_month flat_params) = 73742069 / 250"
    by (simp add: flat_params_def default_params_def)
  ultimately show ?thesis using flat_params_flat retiring_valid b0 by blast
qed

subsection \<open>Verdict: strict comparison and the pension summary fields\<close>

lemma state_after_flags:
  assumes "state_after ra p sra n = Inr st"
  shows "(pension1_income_active st \<longleftrightarrow> (\<exists>m<n. age1_at p m \<ge> pension_start_age p))
       \<and> (pension2_income_active st \<longleftrightarrow> (\<exists>m<n. age2_at p m \<ge> spouse_pension_start_age p))
       \<and> (old_age_pension1_active st \<longleftrightarrow> (\<exists>m<n. age1_at p m \<ge> old_age_pension_start_age p))
       \<and> (old_age_pension2_active st \<longleftrightarrow> (\<exists>m<n. age2_at p m \<ge> old_age_pension_start_age p))"
  using assms
proof (induction n arbitrary: st)
  case 0
  then show ?case by (auto simp: state_after_0 initial_state_def)
next
  case (Suc n)
  from Suc.prems obtain st0 where
    st0: "state_after ra p sra n = Inr st0" and step: "month_step ra p sra n st0 = Inr st"
    by (rule state_after_Suc_Inr)
  note S = month_step_state [OF step]
  from Suc.IH [OF st0] S(1,2,10,11) show ?case
    by (simp add: less_Suc_eq) blast
qed

lemma touch_params_flat: "flat_cash_flow touch_params"
  by (simp add: flat_cash_flow_def touch_params_def flat_params_def default_params_def
        opt_list_def)

lemma touch_params_quiet: "quiet_month touch_params 0"
  by (simp add: quiet_month_def touch_params_def flat_params_def default_params_def
        opt_list_def age1_at_def age2_at_def)

lemma touch_params_valid:
  "validate 38 touch_params (effective_spouse_retire_age touch_params None) = None"
  by (simp add: validate_def effective_spouse_retire_age_def touch_params_def flat_params_def
        default_params_def opt_list_def)

lemma touch_params_total_months: "total_months touch_params = 1"
  by (simp add: total_months_def touch_params_def flat_params_def default_params_def
        py_round_def)

lemma touch_params_idle: "base_net_income 38 touch_params 36 0 = 0"
  by (simp add: base_net_income_def age1_at_def age2_at_def touch_params_def flat_params_def
        default_params_def)

lemma touch_params_run:
  obtains st where "final_state 38 touch_params 36 = Inr st" "liquid st = 284000"
    "length (records st) = 1" "col_liquid (last (records st)) = 284000"
proof -
  have q: "\<forall>m<1. quiet_month touch_params m" by (simp add: touch_params_quiet)
  from quiet_flat_run_returns [OF touch_params_flat q] obtain st where
    st: "state_after 38 touch_params 36 1 = Inr st" by blast
  from quiet_flat_run [OF touch_params_flat q st] touch_params_idle
  have "liquid st = liquid_now touch_params - spend_month touch_params" by simp
  then have l: "liquid st = 284000"
    by (simp add: touch_params_def flat_params_def default_params_def)
  from state_after_records [OF st] l have "length (records st) = 1"
    "col_liquid (last (records st)) = 284000" by simp_all
  with st l that show thesis by (simp add: final_state_def touch_params_total_months)
qed

text \<open>
  C9.  Both solvency comparisons are strict: a result that \<open>simulate\<close> returns on a
  parameter set that passes validation, in which the liquid assets of every recorded
  month and the final liquid assets are at least the floor (equal to it or above), is
  feasible.
\<close>

theorem floor_comparison_is_strict:
  assumes "validate ra p (effective_spouse_retire_age p sopt) = None"
    and "simulate ra p sopt = Inr r"
    and "\<forall>row\<in>set (df r). col_liquid row \<ge> min_assets p"
    and "liquid_end r \<ge> min_assets p"
  shows "ok r"
proof -
  from assms(1,2) obtain st where
    st: "state_after ra p (effective_spouse_retire_age p sopt) (nat (total_months p)) = Inr st"
    and r: "r = verdict p st"
    unfolding final_state_def [symmetric] by (rule simulate_valid_Inr)
  from state_after_records [OF st] assms(3) r have "\<not> min_assets_violated st"
    by (auto simp: verdict_fields not_less)
  with assms(4) r show ?thesis by (simp add: verdict_fields not_less)
qed

theorem floor_comparison_is_strict_witness:
  "validate 38 touch_params (effective_spouse_retire_age touch_params None) = None
   \<and> (\<exists>r. simulate 38 touch_params None = Inr r
          \<and> length (df r) = 1
          \<and> (\<forall>row\<in>set (df r). col_liquid row = min_assets touch_params)
          \<and> liquid_end r = min_assets touch_params
          \<and> ok r)"
proof -
  obtain st where st: "final_state 38 touch_params 36 = Inr st" "liquid st = 284000"
    "length (records st) = 1" "col_liquid (last (records st)) = 284000"
    by (rule touch_params_run)
  have e: "effective_spouse_retire_age touch_params None = 36"
    by (simp add: effective_spouse_retire_age_def touch_params_def flat_params_def
          default_params_def)
  have m: "min_assets touch_params = 284000"
    by (simp add: touch_params_def)
  from st(1) have sim: "simulate 38 touch_params None = Inr (verdict touch_params st)"
    by (simp add: simulate_valid [OF touch_params_valid] e)
  from st(3) obtain row where rows: "records st = [row]"
    by (cases "records st") auto
  with st(4) have all: "\<forall>row\<in>set (df (verdict touch_params st)).
      col_liquid row = min_assets touch_params"
    by (simp add: verdict_fields m)
  from st(2) have fin: "liquid_end (verdict touch_params st) = min_assets touch_params"
    by (simp add: verdict_fields m)
  from floor_comparison_is_strict [OF touch_params_valid sim] all fin
  have "ok (verdict touch_params st)" by simp
  with sim all fin st(3) touch_params_valid show ?thesis
    by (auto simp: verdict_fields)
qed

lemma quiet_flat_run_pension:
  assumes flat: "flat_cash_flow p" and quiet: "\<forall>m<n. quiet_month p m"
    and st: "state_after ra p sra n = Inr st"
  shows "pension1 st = pension_now p \<and> pension2 st = spouse_pension_now p"
  using quiet st
proof (induction n arbitrary: st)
  case 0
  then show ?case by (auto simp: state_after_0 initial_state_def)
next
  case (Suc n)
  from Suc.prems(2) obtain st0 where
    st0: "state_after ra p sra n = Inr st0" and step: "month_step ra p sra n st0 = Inr st"
    by (rule state_after_Suc_Inr)
  from Suc.prems(1) have q: "\<forall>m<n. quiet_month p m" and qn: "quiet_month p n" by simp_all
  from quiet_flat_run [OF flat q st0] have "quiet_state st0" by simp
  from quiet_flat_step(1) [OF flat qn this step] have qs: "quiet_state st" .
  from flat have r0: "r_month p = 0" by (simp add: flat_cash_flow_def r_month_zero)
  note S = month_step_state [OF step]
  from S(7,8) qs Suc.IH [OF q st0] show ?case
    by (simp add: quiet_state_def r0 flat_work1 [OF flat] flat_work2 [OF flat])
qed

lemma breach_params_flat: "flat_cash_flow breach_params"
  by (simp add: flat_cash_flow_def breach_params_def touch_params_def flat_params_def
        default_params_def opt_list_def)

lemma breach_params_quiet: "quiet_month breach_params 0"
  by (simp add: quiet_month_def breach_params_def touch_params_def flat_params_def
        default_params_def opt_list_def age1_at_def age2_at_def)

lemma breach_params_valid:
  "validate 38 breach_params (effective_spouse_retire_age breach_params None) = None"
  by (simp add: validate_def effective_spouse_retire_age_def breach_params_def
        touch_params_def flat_params_def default_params_def opt_list_def)

lemma breach_params_total_months: "total_months breach_params = 1"
  by (simp add: total_months_def breach_params_def touch_params_def flat_params_def
        default_params_def py_round_def)

lemma breach_params_idle: "base_net_income 38 breach_params 36 0 = 0"
  by (simp add: base_net_income_def age1_at_def age2_at_def breach_params_def
        touch_params_def flat_params_def default_params_def)

lemma breach_params_run:
  obtains st where "final_state 38 breach_params 36 = Inr st" "liquid st = 284000"
    "length (records st) = 1" "col_pension1 (last (records st)) = 400000"
    "col_pension2 (last (records st)) = 350000"
proof -
  have q: "\<forall>m<1. quiet_month breach_params m" by (simp add: breach_params_quiet)
  from quiet_flat_run_returns [OF breach_params_flat q] obtain st where
    st: "state_after 38 breach_params 36 1 = Inr st" by blast
  from quiet_flat_run [OF breach_params_flat q st] breach_params_idle
  have "liquid st = liquid_now breach_params - spend_month breach_params" by simp
  then have l: "liquid st = 284000"
    by (simp add: breach_params_def touch_params_def flat_params_def default_params_def)
  from quiet_flat_run_pension [OF breach_params_flat q st]
  have "pension1 st = 400000" "pension2 st = 350000"
    by (simp_all add: breach_params_def touch_params_def flat_params_def default_params_def)
  with state_after_records [OF st] have "length (records st) = 1"
    "col_pension1 (last (records st)) = 400000" "col_pension2 (last (records st)) = 350000"
    by simp_all
  with st l that show thesis by (simp add: final_state_def breach_params_total_months)
qed

text \<open>
  C10.  On a result that \<open>simulate\<close> returns for a parameter set that passes
  validation: when the pension payout of person 1 never activates during the run (in
  no simulated month the age reaches the pension start age), \<open>pension_at_start\<close> is 0
  on a feasible result and is the raw final pension balance (that of the last row, or
  the starting balance for an empty series) on an infeasible one; likewise for
  person 2 and \<open>spouse_pension_at_start\<close>.
\<close>

theorem pension_at_start_depends_on_verdict:
  assumes "validate ra p (effective_spouse_retire_age p sopt) = None"
    and "simulate ra p sopt = Inr r"
  shows "((\<forall>m < nat (total_months p). age1_at p m < pension_start_age p) \<longrightarrow>
            (ok r \<longrightarrow> pension_at_start r = 0)
            \<and> (\<not> ok r \<longrightarrow> pension_at_start r =
                  (if df r = [] then pension_now p else col_pension1 (last (df r)))))
       \<and> ((\<forall>m < nat (total_months p). age2_at p m < spouse_pension_start_age p) \<longrightarrow>
            (ok r \<longrightarrow> spouse_pension_at_start r = 0)
            \<and> (\<not> ok r \<longrightarrow> spouse_pension_at_start r =
                  (if df r = [] then spouse_pension_now p else col_pension2 (last (df r)))))"
proof -
  from assms obtain st where
    st: "state_after ra p (effective_spouse_retire_age p sopt) (nat (total_months p)) = Inr st"
    and r: "r = verdict p st"
    unfolding final_state_def [symmetric] by (rule simulate_valid_Inr)
  note fl = state_after_flags [OF st]
  note rc = state_after_records [OF st]
  from rc have e: "df r = [] \<longleftrightarrow> nat (total_months p) = 0"
    by (auto simp: r verdict_fields)
  have 1: "(ok r \<longrightarrow> pension_at_start r = 0)
            \<and> (\<not> ok r \<longrightarrow> pension_at_start r =
                  (if df r = [] then pension_now p else col_pension1 (last (df r))))"
    if "\<forall>m < nat (total_months p). age1_at p m < pension_start_age p"
  proof -
    from that fl have "\<not> pension1_income_active st" by (auto simp: not_le)
    with rc e show ?thesis
      by (auto simp: r verdict_def Let_def)
  qed
  have 2: "(ok r \<longrightarrow> spouse_pension_at_start r = 0)
            \<and> (\<not> ok r \<longrightarrow> spouse_pension_at_start r =
                  (if df r = [] then spouse_pension_now p else col_pension2 (last (df r))))"
    if "\<forall>m < nat (total_months p). age2_at p m < spouse_pension_start_age p"
  proof -
    from that fl have "\<not> pension2_income_active st" by (auto simp: not_le)
    with rc e show ?thesis
      by (auto simp: r verdict_def Let_def)
  qed
  from 1 2 show ?thesis by blast
qed

theorem pension_at_start_depends_on_verdict_witness:
  "breach_params = touch_params\<lparr>min_assets := 284001\<rparr>
   \<and> validate 38 touch_params (effective_spouse_retire_age touch_params None) = None
   \<and> validate 38 breach_params (effective_spouse_retire_age breach_params None) = None
   \<and> total_months touch_params = 1 \<and> total_months breach_params = 1
   \<and> age1_at touch_params 0 < pension_start_age touch_params
   \<and> age1_at breach_params 0 < pension_start_age breach_params
   \<and> (\<exists>r. simulate 38 touch_params None = Inr r \<and> ok r \<and> pension_at_start r = 0)
   \<and> (\<exists>r. simulate 38 breach_params None = Inr r \<and> \<not> ok r \<and> pension_at_start r = 400000)"
proof -
  have n1: "\<forall>m < nat (total_months touch_params).
      age1_at touch_params m < pension_start_age touch_params"
    unfolding touch_params_total_months
    by (simp add: age1_at_def touch_params_def flat_params_def default_params_def)
  have n2: "\<forall>m < nat (total_months breach_params).
      age1_at breach_params m < pension_start_age breach_params"
    unfolding breach_params_total_months
    by (simp add: age1_at_def breach_params_def touch_params_def flat_params_def
          default_params_def)
  have e1: "effective_spouse_retire_age touch_params None = 36"
    by (simp add: effective_spouse_retire_age_def touch_params_def flat_params_def
          default_params_def)
  have e2: "effective_spouse_retire_age breach_params None = 36"
    by (simp add: effective_spouse_retire_age_def breach_params_def touch_params_def
          flat_params_def default_params_def)
  obtain st1 where st1: "final_state 38 touch_params 36 = Inr st1" "liquid st1 = 284000"
    "length (records st1) = 1" "col_liquid (last (records st1)) = 284000"
    by (rule touch_params_run)
  obtain st2 where st2: "final_state 38 breach_params 36 = Inr st2" "liquid st2 = 284000"
    "length (records st2) = 1" "col_pension1 (last (records st2)) = 400000"
    "col_pension2 (last (records st2)) = 350000"
    by (rule breach_params_run)
  from st1(1) have sim1: "simulate 38 touch_params None = Inr (verdict touch_params st1)"
    by (simp add: simulate_valid [OF touch_params_valid] e1)
  from st2(1) have sim2: "simulate 38 breach_params None = Inr (verdict breach_params st2)"
    by (simp add: simulate_valid [OF breach_params_valid] e2)
  from st1(1) have sa1: "state_after 38 touch_params 36 1 = Inr st1"
    by (simp add: final_state_def touch_params_total_months)
  from st1(3) obtain row where "records st1 = [row]"
    by (cases "records st1") auto
  with state_after_records [OF sa1] st1(2,4) have ok1: "ok (verdict touch_params st1)"
    by (simp add: verdict_fields touch_params_def)
  from st2(2) have ok2: "\<not> ok (verdict breach_params st2)"
    by (simp add: verdict_fields breach_params_def)
  from st2(3) have ne: "df (verdict breach_params st2) \<noteq> []"
    by (auto simp: verdict_fields)
  from pension_at_start_depends_on_verdict [OF touch_params_valid sim1] n1 ok1
  have p1: "pension_at_start (verdict touch_params st1) = 0" by blast
  from pension_at_start_depends_on_verdict [OF breach_params_valid sim2] n2 ok2 ne
  have "pension_at_start (verdict breach_params st2) = col_pension1 (last (df (verdict breach_params st2)))"
    by auto
  with st2(4) have p2: "pension_at_start (verdict breach_params st2) = 400000"
    by (simp add: verdict_fields)
  from n1 n2 have "age1_at touch_params 0 < pension_start_age touch_params"
    "age1_at breach_params 0 < pension_start_age breach_params"
    by (simp_all add: touch_params_total_months breach_params_total_months)
  with sim1 sim2 ok1 ok2 p1 p2 touch_params_valid breach_params_valid
    touch_params_total_months breach_params_total_months
  show ?thesis by (auto simp: breach_params_def)
qed

subsection \<open>Rows and the states between them\<close>

lemma row_states:
  assumes "state_after ra p sra n = Inr stn" "m < n"
  obtains st st' where "state_after ra p sra m = Inr st"
    "state_after ra p sra (Suc m) = Inr st'"
    "month_step ra p sra m st = Inr st'"
    "records stn ! m = last (records st')"
    "liquid st = prev_liquid p (records stn) m"
    "pension1 st = prev_pension1 p (records stn) m"
    "pension2 st = prev_pension2 p (records stn) m"
proof -
  from assms obtain st st' where s: "state_after ra p sra m = Inr st"
    "state_after ra p sra (Suc m) = Inr st'"
    "month_step ra p sra m st = Inr st'"
    "records stn ! m = last (records st')"
    by (rule state_after_row)
  from state_after_records [OF assms(1)] have len: "length (records stn) = n" by simp
  from state_after_prefix [OF assms(1) s(1)] assms(2)
  have pre: "records st = take m (records stn)" by simp
  have "last (records st) = records stn ! (m - 1)" if "m \<noteq> 0"
  proof -
    from that obtain k where k: "m = Suc k" by (cases m) auto
    with pre len assms(2) show ?thesis by (simp add: take_Suc_conv_app_nth)
  qed
  with state_after_records [OF s(1)]
  have "liquid st = prev_liquid p (records stn) m"
    "pension1 st = prev_pension1 p (records stn) m"
    "pension2 st = prev_pension2 p (records stn) m"
    by (simp_all add: prev_liquid_def prev_pension1_def prev_pension2_def)
  with s that show thesis by blast
qed



subsection \<open>One-time events\<close>

lemma due_events_indices:
  "fst ` set (due_events p a applied) =
     {i. i < length (opt_list (one_time_events p)) \<and> event_age_of p i \<le> a \<and> i \<notin> applied}"
  by (force simp: due_events_def in_set_enumerate_eq event_age_of_def image_iff
        split: prod.splits)

lemma state_after_applied:
  assumes "state_after ra p sra n = Inr st"
  shows "applied_events st =
     {i. i < length (opt_list (one_time_events p)) \<and> (\<exists>m<n. event_age_of p i \<le> age1_at p m)}"
  using assms
proof (induction n arbitrary: st)
  case 0
  then show ?case by (auto simp: state_after_0 initial_state_def)
next
  case (Suc n)
  from Suc.prems obtain st0 where
    st0: "state_after ra p sra n = Inr st0" and step: "month_step ra p sra n st0 = Inr st"
    by (rule state_after_Suc_Inr)
  note S = month_step_state [OF step]
  show ?case
    unfolding S(9) due_events_indices Suc.IH [OF st0]
    by (auto simp: less_Suc_eq)
qed

lemma applied_in_month_iff:
  assumes "state_after ra p sra n = Inr stn" "m < n"
    "i < length (opt_list (one_time_events p))"
  shows "applied_in_month ra p sra m i \<longleftrightarrow> first_month_at (age1_at p) (event_age_of p i) m"
proof -
  from assms(1,2) obtain st st' where s: "state_after ra p sra m = Inr st"
    "state_after ra p sra (Suc m) = Inr st'"
    by (rule state_after_row)
  have "applied_in_month ra p sra m i \<longleftrightarrow> i \<in> applied_events st' \<and> i \<notin> applied_events st"
    by (simp add: applied_in_month_def s)
  also have "\<dots> \<longleftrightarrow> first_month_at (age1_at p) (event_age_of p i) m"
    unfolding state_after_applied [OF s(1)] state_after_applied [OF s(2)]
    using assms(3) by (auto simp: first_month_at_def less_Suc_eq not_le)
  finally show ?thesis .
qed

lemma first_month_at_unique:
  "first_month_at f a m \<Longrightarrow> first_month_at f a m' \<Longrightarrow> m = m'"
  unfolding first_month_at_def by (metis linorder_neqE_nat not_le)

lemma first_month_at_exists:
  assumes "a \<le> f m"
  shows "\<exists>k\<le>m. first_month_at f a k"
proof -
  define k where "k = (LEAST k. a \<le> f k)"
  from assms have "a \<le> f k" unfolding k_def by (rule LeastI)
  moreover have "\<forall>j<k. f j < a"
    unfolding k_def using not_less_Least by (auto simp: not_le [symmetric])
  moreover from assms have "k \<le> m" unfolding k_def by (rule Least_le)
  ultimately show ?thesis unfolding first_month_at_def by blast
qed

lemma event_amounts_due:
  "event_amounts (due_events p a applied) =
     (\<Sum>i\<in>fst ` set (due_events p a applied). event_amount_of p i)"
proof -
  let ?due = "due_events p a applied"
  have d: "distinct ?due"
    by (simp add: due_events_def distinct_enumerate)
  have inj: "inj_on fst (set ?due)"
    by (auto simp: inj_on_def due_events_def in_set_enumerate_eq)
  have "event_amounts ?due = (\<Sum>x\<in>set ?due. case x of (idx, event_age, amount, description) \<Rightarrow> amount)"
    unfolding event_amounts_def using d by (rule sum_list_distinct_conv_sum_set)
  also have "\<dots> = (\<Sum>x\<in>set ?due. event_amount_of p (fst x))"
    by (rule sum.cong)
      (auto simp: due_events_def in_set_enumerate_eq event_amount_of_def)
  also have "\<dots> = (\<Sum>i\<in>fst ` set ?due. event_amount_of p i)"
    using inj by (simp add: sum.reindex)
  finally show ?thesis .
qed

lemma simulate_run:
  assumes "validate ra p (effective_spouse_retire_age p sopt) = None"
    and "simulate ra p sopt = Inr r"
  obtains st where
    "state_after ra p (effective_spouse_retire_age p sopt) (length (df r)) = Inr st"
    "r = verdict p st" "df r = records st" "length (df r) = nat (total_months p)"
proof -
  from assms obtain st where
    st: "state_after ra p (effective_spouse_retire_age p sopt) (nat (total_months p)) = Inr st"
    and r: "r = verdict p st"
    unfolding final_state_def [symmetric] by (rule simulate_valid_Inr)
  from state_after_records [OF st] r have "length (df r) = nat (total_months p)"
    by (simp add: verdict_fields)
  with st r that show thesis by (simp add: verdict_fields)
qed

lemma month_events:
  assumes "state_after ra p sra n = Inr stn" "m < n"
  shows "col_one_time_event (records stn ! m) =
     (\<Sum>j | j < length (opt_list (one_time_events p)) \<and> applied_in_month ra p sra m j.
        event_amount_of p j)"
proof -
  from assms obtain st st' where s: "state_after ra p sra m = Inr st"
    "state_after ra p sra (Suc m) = Inr st'"
    "month_step ra p sra m st = Inr st'"
    "records stn ! m = last (records st')"
    by (rule state_after_row)
  note S = month_step_state [OF s(3)]
  note R = month_step_row [OF s(3)]
  have "{j. j < length (opt_list (one_time_events p)) \<and> applied_in_month ra p sra m j}
      = fst ` set (due_events p (age1_at p m) (applied_events st))"
    unfolding due_events_indices
    by (auto simp: applied_in_month_def s S(9) due_events_indices)
  with R(21) s(4) show ?thesis by (simp add: event_amounts_due)
qed

lemma month_liquid:
  assumes "state_after ra p sra n = Inr stn" "m < n"
  defines "row \<equiv> records stn ! m"
  shows "col_liquid row = prev_liquid p (records stn) m * (1 + r_month p) + col_liquid_change row"
    and "col_liquid_change row =
           col_salary1_net row + col_salary2_net row + col_total_pension_income row
           + col_old_age_pension row + col_hishtalmut1 row + col_hishtalmut2 row
           + col_one_time_event row - col_monthly_expense row"
    and "col_total_pension_income row =
           col_pension1_income_net row + col_pension2_income_net row"
proof -
  from assms(1,2) obtain st st' where s:
    "month_step ra p sra m st = Inr st'"
    "records stn ! m = last (records st')"
    "liquid st = prev_liquid p (records stn) m"
    by (rule row_states)
  note R = month_step_row [OF s(1), folded s(2)]
  from R(5) R(25) s(3)
  show "col_liquid row = prev_liquid p (records stn) m * (1 + r_month p) + col_liquid_change row"
    by (simp add: row_def)
  show "col_liquid_change row =
           col_salary1_net row + col_salary2_net row + col_total_pension_income row
           + col_old_age_pension row + col_hishtalmut1 row + col_hishtalmut2 row
           + col_one_time_event row - col_monthly_expense row"
    unfolding row_def by (rule R(24))
  show "col_total_pension_income row =
           col_pension1_income_net row + col_pension2_income_net row"
    unfolding row_def by (rule R(20))
qed

text \<open>
  C4, as amended.  On a result that \<open>simulate\<close> returns for a parameter set that
  passes validation, a month applies the one-time event with index \<open>i\<close> exactly when
  it is the first simulated month at which the age of person 1 has reached the
  event's trigger age.  So the event is applied in at most one month, never a second
  time, and it is applied at all exactly when some simulated month reaches its
  trigger age.  The event column of a month is the sum of the signed amounts of the
  events which that month applies, and it is part of the month's change of liquid
  assets.
\<close>

theorem one_time_event_applied_at_first_month_reached:
  assumes "validate ra p (effective_spouse_retire_age p sopt) = None"
    and "simulate ra p sopt = Inr r"
    and "i < length (opt_list (one_time_events p))"
  shows "(\<forall>m < length (df r).
            applied_in_month ra p (effective_spouse_retire_age p sopt) m i
              \<longleftrightarrow> first_month_at (age1_at p) (event_age_of p i) m)
       \<and> (\<forall>m < length (df r). \<forall>m' < length (df r).
            applied_in_month ra p (effective_spouse_retire_age p sopt) m i
            \<and> applied_in_month ra p (effective_spouse_retire_age p sopt) m' i \<longrightarrow> m = m')
       \<and> ((\<exists>m < length (df r). applied_in_month ra p (effective_spouse_retire_age p sopt) m i)
            \<longleftrightarrow> (\<exists>m < length (df r). event_age_of p i \<le> age1_at p m))
       \<and> (\<forall>m < length (df r).
            col_one_time_event (df r ! m) =
              (\<Sum>j | j < length (opt_list (one_time_events p))
                    \<and> applied_in_month ra p (effective_spouse_retire_age p sopt) m j.
                 event_amount_of p j)
            \<and> col_liquid (df r ! m) =
                prev_liquid p (df r) m * (1 + r_month p) + col_liquid_change (df r ! m)
            \<and> col_liquid_change (df r ! m) =
                col_salary1_net (df r ! m) + col_salary2_net (df r ! m)
                + col_total_pension_income (df r ! m) + col_old_age_pension (df r ! m)
                + col_hishtalmut1 (df r ! m) + col_hishtalmut2 (df r ! m)
                + col_one_time_event (df r ! m) - col_monthly_expense (df r ! m))"
proof -
  let ?sra = "effective_spouse_retire_age p sopt"
  let ?n = "length (df r)"
  from assms(1,2) obtain st where st: "state_after ra p ?sra ?n = Inr st"
    and df: "df r = records st"
    by (rule simulate_run)
  have a: "applied_in_month ra p ?sra m i \<longleftrightarrow> first_month_at (age1_at p) (event_age_of p i) m"
    if "m < ?n" for m
    using st that assms(3) by (rule applied_in_month_iff)
  have b: "m = m'" if "m < ?n" "m' < ?n" "applied_in_month ra p ?sra m i"
    "applied_in_month ra p ?sra m' i" for m m'
    using that a first_month_at_unique by blast
  have c: "(\<exists>m < ?n. applied_in_month ra p ?sra m i)
       \<longleftrightarrow> (\<exists>m < ?n. event_age_of p i \<le> age1_at p m)"
  proof
    assume "\<exists>m < ?n. applied_in_month ra p ?sra m i"
    with a show "\<exists>m < ?n. event_age_of p i \<le> age1_at p m"
      by (auto simp: first_month_at_def)
  next
    assume "\<exists>m < ?n. event_age_of p i \<le> age1_at p m"
    then obtain m where m: "m < ?n" "event_age_of p i \<le> age1_at p m" by blast
    from first_month_at_exists [of "event_age_of p i" "age1_at p" m, OF m(2)] obtain k where
      "k \<le> m" "first_month_at (age1_at p) (event_age_of p i) k" by blast
    with m(1) a [of k] have "k < ?n" "applied_in_month ra p ?sra k i" by auto
    then show "\<exists>m < ?n. applied_in_month ra p ?sra m i" by blast
  qed
  have d: "col_one_time_event (df r ! m) =
              (\<Sum>j | j < length (opt_list (one_time_events p))
                    \<and> applied_in_month ra p ?sra m j. event_amount_of p j)
            \<and> col_liquid (df r ! m) =
                prev_liquid p (df r) m * (1 + r_month p) + col_liquid_change (df r ! m)
            \<and> col_liquid_change (df r ! m) =
                col_salary1_net (df r ! m) + col_salary2_net (df r ! m)
                + col_total_pension_income (df r ! m) + col_old_age_pension (df r ! m)
                + col_hishtalmut1 (df r ! m) + col_hishtalmut2 (df r ! m)
                + col_one_time_event (df r ! m) - col_monthly_expense (df r ! m)"
    if "m < ?n" for m
    using month_events [OF st that] month_liquid(1,2) [OF st that] by (simp add: df)
  from a b c d show ?thesis by blast
qed

lemma inheritance_params_valid:
  "validate 65 inheritance_params (effective_spouse_retire_age inheritance_params None) = None"
  by (simp add: validate_def effective_spouse_retire_age_def inheritance_params_def
        default_params_def opt_list_def)

lemma inheritance_params_total_months: "total_months inheritance_params = 684"
  by (simp add: total_months_def inheritance_params_def default_params_def py_round_def)

lemma inheritance_first_month:
  "first_month_at (age1_at inheritance_params) (event_age_of inheritance_params 0) 204"
proof -
  have "real k < 204" if "k < 204" for k :: nat
    using that by simp
  then show ?thesis
    by (simp add: first_month_at_def age1_at_def event_age_of_def inheritance_params_def
          default_params_def opt_list_def)
qed

theorem one_time_event_applied_at_first_month_reached_witness:
  "validate 65 inheritance_params (effective_spouse_retire_age inheritance_params None) = None
   \<and> (0::nat) < length (opt_list (one_time_events inheritance_params))
   \<and> (\<exists>r. simulate 65 inheritance_params None = Inr r \<and> length (df r) = 684
        \<and> (\<forall>m<684. applied_in_month 65 inheritance_params
                      (effective_spouse_retire_age inheritance_params None) m 0
                    \<longleftrightarrow> m = 204))"
proof -
  have len: "(0::nat) < length (opt_list (one_time_events inheritance_params))"
    by (simp add: inheritance_params_def opt_list_def)
  have "mekadem inheritance_params \<noteq> 0" "spouse_mekadem inheritance_params \<noteq> 0"
    "\<not> rate_is_complex inheritance_params"
    by (simp_all add: inheritance_params_def default_params_def rate_is_complex_def)
  from simulate_returns [OF this] obtain r where
    r: "simulate 65 inheritance_params None = Inr r" by blast
  from inheritance_params_valid r obtain st where
    "length (df r) = nat (total_months inheritance_params)"
    by (rule simulate_run)
  then have n: "length (df r) = 684" by (simp add: inheritance_params_total_months)
  note T = one_time_event_applied_at_first_month_reached [OF inheritance_params_valid r len]
  have "applied_in_month 65 inheritance_params
          (effective_spouse_retire_age inheritance_params None) m 0 \<longleftrightarrow> m = 204"
    if "m < 684" for m
    using T that n inheritance_first_month first_month_at_unique
    by (metis (no_types, lifting))
  with inheritance_params_valid len r n show ?thesis by blast
qed

lemma late_event_params_valid:
  "validate 65 late_event_params (effective_spouse_retire_age late_event_params None) = None"
  by (simp add: validate_def effective_spouse_retire_age_def late_event_params_def
        default_params_def opt_list_def)

lemma late_event_params_total_months: "total_months late_event_params = 684"
  by (simp add: total_months_def late_event_params_def default_params_def py_round_def)

theorem event_at_horizon_counterexample:
  "validate 65 late_event_params (effective_spouse_retire_age late_event_params None) = None
   \<and> one_time_events late_event_params = Some [(95, 1000000, ''Inheritance'')]
   \<and> total_months late_event_params = 684
   \<and> events_applied 65 late_event_params 65 = Inr {}"
proof -
  have "mekadem late_event_params \<noteq> 0" "spouse_mekadem late_event_params \<noteq> 0"
    "\<not> rate_is_complex late_event_params"
    by (simp_all add: late_event_params_def default_params_def rate_is_complex_def)
  from state_after_returns [OF this] obtain st where
    st: "state_after 65 late_event_params 65 684 = Inr st" by blast
  have "\<not> 95 \<le> age1_at late_event_params m" if "m < 684" for m
  proof -
    from that have "real m < 684" by simp
    then show ?thesis
      by (simp add: age1_at_def late_event_params_def default_params_def)
  qed
  then have "applied_events st = {}"
    unfolding state_after_applied [OF st]
    by (auto simp: event_age_of_def late_event_params_def opt_list_def)
  with st have "events_applied 65 late_event_params 65 = Inr {}"
    by (simp add: events_applied_def final_state_def late_event_params_total_months)
  with late_event_params_valid late_event_params_total_months show ?thesis
    by (simp add: late_event_params_def)
qed

subsection \<open>Pension payout\<close>









subsection \<open>Earliest retirement age\<close>

lemma py_round_nonneg: "0 \<le> x \<Longrightarrow> 0 \<le> py_round x"
  by (auto simp: py_round_def Let_def)

lemma py_range_scan_months:
    assumes "0 \<le> tot" "step \<noteq> 0"
  shows "py_range (tot + 1) step = Inr (scan_months tot step)"
proof (cases "step > 0")
  case True
  have "- ((- (tot + 1)) div step) = tot div step + 1"
  proof -
    have "- (tot + 1) = step * (- (tot div step) - 1) + (step - tot mod step - 1)"
      by (simp add: algebra_simps)
    moreover from True have "0 \<le> tot mod step" "tot mod step < step"
      by simp_all
    then have "0 \<le> step - tot mod step - 1" "step - tot mod step - 1 < step"
      by linarith+
    ultimately have "(- (tot + 1)) div step = - (tot div step) - 1"
      by (rule int_div_pos_eq)
    then show ?thesis by simp
  qed
  with True show ?thesis by (simp add: py_range_def scan_months_def)
next
  case False
  with assms have neg: "step < 0" by simp
  with assms(1) have "0 \<le> (- (tot + 1)) div step"
    by (simp add: div_nonpos_pos_le0 neg_imp_zdiv_nonneg_iff)
  with neg assms(2) show ?thesis by (simp add: py_range_def scan_months_def)
qed

lemma earliest_loop_scan:
  "earliest_loop p lo hi sra ms =
     first_feasible p sra
       (let ages = map (\<lambda>m. min (lo + real_of_int m / 12) hi) ms
        in takeWhile (\<lambda>a. a < hi) ages @ take 1 (dropWhile (\<lambda>a. a < hi) ages))"
proof (induction ms)
  case Nil
  show ?case by simp
next
  case (Cons m ms)
  have clamp: "(if lo + real_of_int m / 12 > hi then hi else lo + real_of_int m / 12)
      = min (lo + real_of_int m / 12) hi"
    by (simp add: min_def)
  show ?case
  proof (cases "lo + real_of_int m / 12 < hi")
    case True
    then have "min (lo + real_of_int m / 12) hi = lo + real_of_int m / 12" by simp
    with True show ?thesis
      using Cons.IH by (simp add: Let_def split: sum.splits)
  next
    case False
    then have "min (lo + real_of_int m / 12) hi = hi" by simp
    with False show ?thesis
      by (auto simp: Let_def split: sum.splits)
  qed
qed

lemma takeWhile_with_next:
  "takeWhile P xs @ take 1 (dropWhile P xs) = take (Suc (length (takeWhile P xs))) xs"
  by (induction xs) auto

lemma scan_months_nth:
  assumes "0 < step" "k < length (scan_months tot step)"
  shows "scan_months tot step ! k = int k * step"
  using assms by (simp add: scan_months_def)

lemma scan_months_nonempty:
  assumes "0 < step" "0 \<le> tot"
  shows "scan_months tot step \<noteq> []"
proof -
  from assms have "0 \<le> tot div step" by (simp add: pos_imp_zdiv_nonneg_iff)
  with assms(1) show ?thesis by (simp add: scan_months_def)
qed

lemma scan_ages_nth:
  assumes "0 < step" "k < length (scan_ages lo hi step)"
  shows "scan_ages lo hi step ! k = min (lo + real k * real_of_int step / 12) hi"
    and "Suc k < length (scan_ages lo hi step) \<longrightarrow> lo + real k * real_of_int step / 12 < hi"
proof -
  let ?ms = "scan_months (py_round ((hi - lo) * 12)) step"
  let ?ages = "map (\<lambda>m. min (lo + real_of_int m / 12) hi) ?ms"
  let ?t = "takeWhile (\<lambda>a. a < hi) ?ages"
  have eq: "scan_ages lo hi step = take (Suc (length ?t)) ?ages"
    unfolding scan_ages_def Let_def by (rule takeWhile_with_next)
  with assms(2) have k: "k < length ?ms" "k < Suc (length ?t)" by simp_all
  with eq have "scan_ages lo hi step ! k = ?ages ! k" by simp
  also from k(1) assms(1) have "\<dots> = min (lo + real k * real_of_int step / 12) hi"
    by (simp add: scan_months_nth)
  finally show n: "scan_ages lo hi step ! k = min (lo + real k * real_of_int step / 12) hi" .
  show "Suc k < length (scan_ages lo hi step) \<longrightarrow> lo + real k * real_of_int step / 12 < hi"
  proof
    assume "Suc k < length (scan_ages lo hi step)"
    with eq have kt: "k < length ?t" by simp
    then have "?t ! k \<in> set ?t" by (rule nth_mem)
    then have "?t ! k < hi" by (auto dest: set_takeWhileD)
    moreover from kt have "?t ! k = ?ages ! k" by (rule takeWhile_nth)
    moreover from k(1) assms(1) have "?ages ! k = min (lo + real k * real_of_int step / 12) hi"
      by (simp add: scan_months_nth)
    ultimately show "lo + real k * real_of_int step / 12 < hi" by simp
  qed
qed

lemma scan_ages_increasing:
  assumes "0 < step"
  shows "sorted_wrt (<) (scan_ages lo hi step)"
  unfolding sorted_wrt_iff_nth_less
proof (intro allI impI)
  fix i j assume ij: "i < j" "j < length (scan_ages lo hi step)"
  then have i: "i < length (scan_ages lo hi step)" "Suc i < length (scan_ages lo hi step)"
    by simp_all
  from scan_ages_nth [OF assms i(1)] i(2)
  have ai: "scan_ages lo hi step ! i = lo + real i * real_of_int step / 12"
    "lo + real i * real_of_int step / 12 < hi" by simp_all
  from scan_ages_nth(1) [OF assms ij(2)]
  have aj: "scan_ages lo hi step ! j = min (lo + real j * real_of_int step / 12) hi" .
  from ij(1) assms have "real i * real_of_int step < real j * real_of_int step" by simp
  with ai aj show "scan_ages lo hi step ! i < scan_ages lo hi step ! j" by simp
qed

lemma scan_ages_start:
  assumes "0 < step" "lo \<le> hi"
  shows "scan_ages lo hi step \<noteq> [] \<and> hd (scan_ages lo hi step) = lo"
proof -
  let ?ms = "scan_months (py_round ((hi - lo) * 12)) step"
  let ?ages = "map (\<lambda>m. min (lo + real_of_int m / 12) hi) ?ms"
  from assms(2) have "0 \<le> py_round ((hi - lo) * 12)" by (intro py_round_nonneg) simp
  with assms(1) have "?ms \<noteq> []" by (rule scan_months_nonempty)
  then have ne: "?ages \<noteq> []" by simp
  have eq: "scan_ages lo hi step = take (Suc (length (takeWhile (\<lambda>a. a < hi) ?ages))) ?ages"
    unfolding scan_ages_def Let_def by (rule takeWhile_with_next)
  with ne have ne': "scan_ages lo hi step \<noteq> []" by simp
  then have "hd (scan_ages lo hi step) = scan_ages lo hi step ! 0" by (simp add: hd_conv_nth)
  also from ne' assms have "\<dots> = lo"
    using scan_ages_nth(1) [of step 0 lo hi] by simp
  finally show ?thesis using ne' by simp
qed

lemma first_feasible_Some:
  assumes "first_feasible p sra as = Inr (Some a, ro)"
  shows "\<exists>pre post res. as = pre @ a # post \<and> ro = Some res
           \<and> simulate a p (Some sra) = Inr res \<and> ok res
           \<and> (\<forall>a'\<in>set pre. infeasible_at p sra a')"
  using assms
proof (induction as)
  case Nil
  then show ?case by simp
next
  case (Cons b bs)
  from Cons.prems obtain res where res: "simulate b p (Some sra) = Inr res"
    by (auto split: sum.splits)
  show ?case
  proof (cases "ok res")
    case True
    with Cons.prems res have "a = b" "ro = Some res" by simp_all
    with res True show ?thesis
      by (intro exI [of _ "[]"] exI [of _ bs] exI [of _ res]) auto
  next
    case False
    with Cons.prems res have "first_feasible p sra bs = Inr (Some a, ro)" by simp
    from Cons.IH [OF this] obtain pre post r' where
      "bs = pre @ a # post" "ro = Some r'" "simulate a p (Some sra) = Inr r'" "ok r'"
      "\<forall>a'\<in>set pre. infeasible_at p sra a'" by blast
    with res False show ?thesis
      by (intro exI [of _ "b # pre"] exI [of _ post] exI [of _ r'])
        (auto simp: infeasible_at_def)
  qed
qed

lemma first_feasible_None:
  "first_feasible p sra as = Inr (None, ro) \<longleftrightarrow>
     ro = None \<and> (\<forall>a\<in>set as. infeasible_at p sra a)"
  by (induction as) (auto simp: infeasible_at_def split: sum.splits)

lemma find_earliest_retirement_eq:
  "find_earliest_retirement p min_age_opt max_age_opt sopt step_months =
     (if earliest_lo p min_age_opt > earliest_hi p max_age_opt then Inr (None, None)
      else if step_months = 0 then Inl ValueError
      else first_feasible p (effective_spouse_retire_age p sopt)
             (scan_ages (earliest_lo p min_age_opt) (earliest_hi p max_age_opt) step_months))"
proof -
  let ?lo = "earliest_lo p min_age_opt" and ?hi = "earliest_hi p max_age_opt"
  have lo: "(if m < age_now p then age_now p else m) = max m (age_now p)" for m
    by (simp add: max_def)
  have hi: "(if m > pension_start_age p then pension_start_age p else m)
      = min m (pension_start_age p)" for m
    by (simp add: min_def)
  have f: "find_earliest_retirement p min_age_opt max_age_opt sopt step_months =
      (if ?lo > ?hi then Inr (None, None)
       else case py_range (py_round ((?hi - ?lo) * 12) + 1) step_months of
              Inl e \<Rightarrow> Inl e
            | Inr ms \<Rightarrow> earliest_loop p ?lo ?hi (effective_spouse_retire_age p sopt) ms)"
    unfolding find_earliest_retirement_def Let_def lo hi
      earliest_lo_def earliest_hi_def effective_spouse_retire_age_def ..
  show ?thesis
  proof (cases "?lo > ?hi \<or> step_months = 0")
    case True
    then show ?thesis by (auto simp: f py_range_def)
  next
    case False
    then have "0 \<le> py_round ((?hi - ?lo) * 12)" by (intro py_round_nonneg) simp
    with False have "py_range (py_round ((?hi - ?lo) * 12) + 1) step_months
        = Inr (scan_months (py_round ((?hi - ?lo) * 12)) step_months)"
      by (intro py_range_scan_months) simp_all
    with False show ?thesis
      by (simp add: f earliest_loop_scan scan_ages_def)
  qed
qed

text \<open>
  C8.  \<open>find_earliest_retirement\<close> returns the none sentinel when the clamped lower
  bound \<open>max min_age age_now\<close> exceeds the clamped upper bound
  \<open>min max_age pension_start_age\<close>; otherwise (a step of zero months raises) it
  returns what the scan of the candidate ages returns, simulating each with person
  2's retirement age held fixed.  For a positive step the candidates start at the
  lower bound, are strictly increasing, and the \<open>k\<close>-th is the lower bound plus \<open>k\<close>
  steps, clamped to the upper bound.  A returned age is a candidate at which the
  simulation is feasible, it comes with that simulation's result, and every smaller
  candidate is infeasible; the none sentinel is returned exactly when the bounds
  cross or every candidate is infeasible.
\<close>

theorem find_earliest_retirement_first_feasible:
  fixes p :: Params and sopt min_age_opt max_age_opt step_months
  defines "sra \<equiv> effective_spouse_retire_age p sopt"
  defines "lo \<equiv> earliest_lo p min_age_opt" and "hi \<equiv> earliest_hi p max_age_opt"
  defines "ages \<equiv> scan_ages lo hi step_months"
  defines "found \<equiv> find_earliest_retirement p min_age_opt max_age_opt sopt step_months"
  shows "found = (if lo > hi then Inr (None, None)
                  else if step_months = 0 then Inl ValueError
                  else first_feasible p sra ages)
       \<and> (0 < step_months \<and> lo \<le> hi \<longrightarrow>
            ages \<noteq> [] \<and> hd ages = lo \<and> sorted_wrt (<) ages
            \<and> (\<forall>k<length ages. ages ! k = min (lo + real k * real_of_int step_months / 12) hi))
       \<and> (\<forall>a ro. found = Inr (Some a, ro) \<longrightarrow>
            (\<exists>res. ro = Some res \<and> simulate a p (Some sra) = Inr res \<and> ok res)
            \<and> lo \<le> hi \<and> a \<in> set ages
            \<and> (\<forall>a'\<in>set ages. a' < a \<longrightarrow> infeasible_at p sra a'))
       \<and> (\<forall>ro. found = Inr (None, ro) \<longleftrightarrow>
            ro = None
            \<and> (lo > hi \<or> (step_months \<noteq> 0 \<and> (\<forall>a\<in>set ages. infeasible_at p sra a))))"
proof -
  have A: "found = (if lo > hi then Inr (None, None)
                  else if step_months = 0 then Inl ValueError
                  else first_feasible p sra ages)"
    unfolding found_def lo_def hi_def ages_def sra_def by (rule find_earliest_retirement_eq)
  have B: "ages \<noteq> [] \<and> hd ages = lo \<and> sorted_wrt (<) ages
            \<and> (\<forall>k<length ages. ages ! k = min (lo + real k * real_of_int step_months / 12) hi)"
    if "0 < step_months \<and> lo \<le> hi"
    using that scan_ages_start [of step_months lo hi] scan_ages_increasing [of step_months lo hi]
      scan_ages_nth(1) [of step_months _ lo hi]
    by (simp add: ages_def)
  have C: "(\<exists>res. ro = Some res \<and> simulate a p (Some sra) = Inr res \<and> ok res)
            \<and> lo \<le> hi \<and> a \<in> set ages
            \<and> (\<forall>a'\<in>set ages. a' < a \<longrightarrow> infeasible_at p sra a')"
    if found: "found = Inr (Some a, ro)" for a ro
  proof -
    from found A have b: "lo \<le> hi" "step_months \<noteq> 0"
      and ff: "first_feasible p sra ages = Inr (Some a, ro)"
      by (auto split: if_splits)
    from first_feasible_Some [OF ff] obtain pre post res where
      d: "ages = pre @ a # post" "ro = Some res" "simulate a p (Some sra) = Inr res" "ok res"
      "\<forall>a'\<in>set pre. infeasible_at p sra a'" by blast
    have pos: "0 < step_months"
    proof (rule ccontr)
      assume "\<not> 0 < step_months"
      then have "ages = []" by (simp add: ages_def scan_ages_def scan_months_def)
      with d(1) show False by simp
    qed
    from scan_ages_increasing [OF pos, of lo hi] d(1)
    have "\<forall>x\<in>set post. a < x" by (simp add: ages_def sorted_wrt_append)
    with d(1) d(5) have "\<forall>a'\<in>set ages. a' < a \<longrightarrow> infeasible_at p sra a'" by auto
    with d b show ?thesis by auto
  qed
  have D: "found = Inr (None, ro) \<longleftrightarrow>
            ro = None
            \<and> (lo > hi \<or> (step_months \<noteq> 0 \<and> (\<forall>a\<in>set ages. infeasible_at p sra a)))" for ro
  proof (cases "lo > hi")
    case True
    with A show ?thesis by auto
  next
    case False
    show ?thesis
    proof (cases "step_months = 0")
      case True
      with False A show ?thesis by simp
    next
      case nz: False
      with False A have "found = first_feasible p sra ages" by simp
      with False nz show ?thesis by (simp add: first_feasible_None)
    qed
  qed
  from A B C D show ?thesis by blast
qed

lemma touch_params_feasible:
  obtains res where "simulate 38 touch_params (Some 36) = Inr res" "ok res"
proof -
  obtain st where st: "final_state 38 touch_params 36 = Inr st" "liquid st = 284000"
    "length (records st) = 1" "col_liquid (last (records st)) = 284000"
    by (rule touch_params_run)
  have e: "effective_spouse_retire_age touch_params None = 36"
    "effective_spouse_retire_age touch_params (Some 36) = 36"
    by (simp_all add: effective_spouse_retire_age_def touch_params_def flat_params_def
          default_params_def)
  from touch_params_valid e
  have v: "validate 38 touch_params (effective_spouse_retire_age touch_params (Some 36)) = None"
    by simp
  from st(1) have sim: "simulate 38 touch_params (Some 36) = Inr (verdict touch_params st)"
    by (simp add: simulate_valid [OF v] e)
  from st(1) have sa: "state_after 38 touch_params 36 1 = Inr st"
    by (simp add: final_state_def touch_params_total_months)
  from st(3) obtain row where "records st = [row]"
    by (cases "records st") auto
  with state_after_records [OF sa] st(2,4) have "ok (verdict touch_params st)"
    by (simp add: verdict_fields touch_params_def)
  with sim that show thesis by blast
qed

theorem find_earliest_retirement_first_feasible_witness:
  "(0::int) < 1 \<and> earliest_lo touch_params None \<le> earliest_hi touch_params None
   \<and> hd (scan_ages (earliest_lo touch_params None) (earliest_hi touch_params None) 1) = 38
   \<and> (\<exists>res. find_earliest_retirement touch_params None None None 1
               = Inr (Some 38, Some res)
          \<and> simulate 38 touch_params (Some 36) = Inr res \<and> ok res)
   \<and> earliest_lo touch_params (Some 70) > earliest_hi touch_params None
   \<and> find_earliest_retirement touch_params (Some 70) None None 1 = Inr (None, None)"
proof -
  have lo: "earliest_lo touch_params None = 38"
    by (simp add: earliest_lo_def touch_params_def flat_params_def default_params_def)
  have hi: "earliest_hi touch_params None = 67"
    by (simp add: earliest_hi_def touch_params_def flat_params_def default_params_def)
  have lo70: "earliest_lo touch_params (Some 70) = 70"
    by (simp add: earliest_lo_def touch_params_def flat_params_def default_params_def)
  have e: "effective_spouse_retire_age touch_params None = 36"
    by (simp add: effective_spouse_retire_age_def touch_params_def flat_params_def
          default_params_def)
  obtain res where res: "simulate 38 touch_params (Some 36) = Inr res" "ok res"
    by (rule touch_params_feasible)
  note T1 = find_earliest_retirement_first_feasible [of touch_params None None None 1,
      unfolded lo hi e]
  note T2 = find_earliest_retirement_first_feasible [of touch_params "Some 70" None None 1,
      unfolded lo70 hi e]
  from T1 have ages: "scan_ages 38 67 1 \<noteq> []" "hd (scan_ages 38 67 1) = 38" by simp_all
  then obtain rest where rest: "scan_ages 38 67 1 = 38 # rest"
    by (cases "scan_ages 38 67 1") auto
  from T1 have "find_earliest_retirement touch_params None None None 1
      = first_feasible touch_params 36 (scan_ages 38 67 1)" by simp
  with rest res have f1: "find_earliest_retirement touch_params None None None 1
      = Inr (Some 38, Some res)" by simp
  from T2 have f2: "find_earliest_retirement touch_params (Some 70) None None 1
      = Inr (None, None)" by simp
  from ages f1 f2 res show ?thesis by (auto simp: lo hi lo70)
qed

subsection \<open>Maximum monthly expense\<close>

lemma test_params_eq: "test_params p mid = p\<lparr>spend_month := mid\<rparr>"
  by (cases p) (simp add: test_params_def)

lemma bisect_loop_step:
  assumes "mid = (low + high) / 2"
    and "simulate ra (p\<lparr>spend_month := mid\<rparr>) (Some sra) = Inr res"
  shows "bisect_loop ra p sra target tol (Suc n) (low, high, bs, br) =
     (if meets_target target tol res then
        if high - mid < tol / 10 then Inr (mid, high, Some mid, Some res)
        else bisect_loop ra p sra target tol n (mid, high, Some mid, Some res)
      else
        if mid - low < tol / 10 then Inr (low, mid, bs, br)
        else bisect_loop ra p sra target tol n (low, mid, bs, br))"
  using assms(2) unfolding assms(1) by (simp add: Let_def test_params_eq)

lemma bisect_loop_raise:
  assumes "mid = (low + high) / 2"
    and "simulate ra (p\<lparr>spend_month := mid\<rparr>) (Some sra) = Inl e"
  shows "bisect_loop ra p sra target tol (Suc n) (low, high, bs, br) = Inl e"
  using assms(2) unfolding assms(1) by (simp add: Let_def test_params_eq)

lemma bisect_mids_step:
  assumes "mid = (low + high) / 2"
    and "simulate ra (p\<lparr>spend_month := mid\<rparr>) (Some sra) = Inr res"
  shows "bisect_mids ra p sra target tol (Suc n) (low, high) =
     (if meets_target target tol res then
        if high - mid < tol / 10 then [mid]
        else mid # bisect_mids ra p sra target tol n (mid, high)
      else
        if mid - low < tol / 10 then [mid]
        else mid # bisect_mids ra p sra target tol n (low, mid))"
  using assms(2) unfolding assms(1) by (simp add: Let_def)

lemma bisect_mids_first:
  "(low + high) / 2 \<in> set (bisect_mids ra p sra target tol (Suc n) (low, high))"
  by (simp add: Let_def split: sum.splits)

lemma bisect_loop_returns:
  assumes "\<forall>mid\<in>set (bisect_mids ra p sra target tol n (low, high)).
             meets_at ra p sra target tol mid \<or> misses_at ra p sra target tol mid"
  shows "\<exists>s'. bisect_loop ra p sra target tol n (low, high, bs, br) = Inr s'"
  using assms
proof (induction n arbitrary: low high bs br)
  case 0
  show ?case by simp
next
  case (Suc n)
  define mid where "mid = (low + high) / 2"
  from Suc.prems bisect_mids_first [of low high ra p sra target tol n]
  have "meets_at ra p sra target tol mid \<or> misses_at ra p sra target tol mid"
    unfolding mid_def by blast
  then obtain res where
    res: "simulate ra (p\<lparr>spend_month := mid\<rparr>) (Some sra) = Inr res"
    by (auto simp: meets_at_def misses_at_def split: sum.splits)
  note L = bisect_loop_step [OF mid_def res, of target tol n bs br]
  note M = bisect_mids_step [OF mid_def res, of target tol n]
  show ?case
  proof (cases "meets_target target tol res")
    case True
    show ?thesis
    proof (cases "high - mid < tol / 10")
      case w: True
      with True show ?thesis unfolding L by simp
    next
      case w: False
      with True Suc.prems
      have "\<forall>x\<in>set (bisect_mids ra p sra target tol n (mid, high)).
             meets_at ra p sra target tol x \<or> misses_at ra p sra target tol x"
        unfolding M by simp
      from Suc.IH [OF this] True w show ?thesis unfolding L by simp
    qed
  next
    case False
    show ?thesis
    proof (cases "mid - low < tol / 10")
      case w: True
      with False show ?thesis unfolding L by simp
    next
      case w: False
      with False Suc.prems
      have "\<forall>x\<in>set (bisect_mids ra p sra target tol n (low, mid)).
             meets_at ra p sra target tol x \<or> misses_at ra p sra target tol x"
        unfolding M by simp
      from Suc.IH [OF this] False w show ?thesis unfolding L by simp
    qed
  qed
qed

lemma bisect_loop_props:
  assumes "bisect_loop ra p sra target tol n (low, high, bs, br) = Inr (low', high', bs', br')"
  shows "(\<forall>mid\<in>set (bisect_mids ra p sra target tol n (low, high)).
            meets_at ra p sra target tol mid \<or> misses_at ra p sra target tol mid)
       \<and> ((\<exists>mid\<in>set (bisect_mids ra p sra target tol n (low, high)).
              meets_at ra p sra target tol mid) \<longrightarrow>
            (\<exists>e res. bs' = Some e \<and> br' = Some res
               \<and> e \<in> set (bisect_mids ra p sra target tol n (low, high))
               \<and> simulate ra (p\<lparr>spend_month := e\<rparr>) (Some sra) = Inr res
               \<and> meets_target target tol res))
       \<and> ((\<forall>mid\<in>set (bisect_mids ra p sra target tol n (low, high)).
              misses_at ra p sra target tol mid) \<longrightarrow> bs' = bs \<and> br' = br)
       \<and> length (bisect_mids ra p sra target tol n (low, high)) \<le> n
       \<and> (length (bisect_mids ra p sra target tol n (low, high)) = n
            \<or> high' - low' < tol / 10)
       \<and> high' - low'
            = (high - low) / 2 ^ length (bisect_mids ra p sra target tol n (low, high))"
  using assms
proof (induction n arbitrary: low high bs br)
  case 0
  then show ?case by simp
next
  case (Suc n)
  define mid where "mid = (low + high) / 2"
  from Suc.prems obtain res where
    res: "simulate ra (p\<lparr>spend_month := mid\<rparr>) (Some sra) = Inr res"
    using bisect_loop_raise [OF mid_def, of ra p sra _ target tol n bs br]
    by (cases "simulate ra (p\<lparr>spend_month := mid\<rparr>) (Some sra)") auto
  note L = bisect_loop_step [OF mid_def res, of target tol n bs br]
  note M = bisect_mids_step [OF mid_def res, of target tol n]
  have half: "high - mid = (high - low) / 2" "mid - low = (high - low) / 2"
    by (simp_all add: mid_def field_simps)
  show ?case
  proof (cases "meets_target target tol res")
    case True
    then have m: "meets_at ra p sra target tol mid" "\<not> misses_at ra p sra target tol mid"
      by (simp_all add: meets_at_def misses_at_def res)
    show ?thesis
    proof (cases "high - mid < tol / 10")
      case w: True
      with True Suc.prems have
        "low' = mid" "high' = high" "bs' = Some mid" "br' = Some res"
        unfolding L by auto
      moreover from True w
      have "bisect_mids ra p sra target tol (Suc n) (low, high) = [mid]"
        unfolding M by simp
      ultimately show ?thesis using res True m w half by simp
    next
      case w: False
      with True Suc.prems have
        rec: "bisect_loop ra p sra target tol n (mid, high, Some mid, Some res)
                = Inr (low', high', bs', br')"
        unfolding L by simp
      from True w
      have mids: "bisect_mids ra p sra target tol (Suc n) (low, high)
          = mid # bisect_mids ra p sra target tol n (mid, high)"
        unfolding M by simp
      note ih = Suc.IH [OF rec]
      let ?rest = "bisect_mids ra p sra target tol n (mid, high)"
      have best: "\<exists>e r'. bs' = Some e \<and> br' = Some r'
               \<and> e \<in> set (mid # ?rest)
               \<and> simulate ra (p\<lparr>spend_month := e\<rparr>) (Some sra) = Inr r'
               \<and> meets_target target tol r'"
      proof (cases "\<exists>x\<in>set ?rest. meets_at ra p sra target tol x")
        case True
        with ih show ?thesis by auto
      next
        case False
        with ih have "\<forall>x\<in>set ?rest. misses_at ra p sra target tol x" by blast
        with ih have "bs' = Some mid" "br' = Some res" by simp_all
        with res \<open>meets_target target tol res\<close> show ?thesis by simp
      qed
      from ih have i1: "\<forall>x\<in>set ?rest.
          meets_at ra p sra target tol x \<or> misses_at ra p sra target tol x"
        and i4: "length ?rest \<le> n"
        and i5: "length ?rest = n \<or> high' - low' < tol / 10"
        and i6: "high' - low' = (high - mid) / 2 ^ length ?rest"
        by blast+
      from i1 m(1) have g1: "\<forall>x\<in>set (mid # ?rest).
          meets_at ra p sra target tol x \<or> misses_at ra p sra target tol x" by simp
      from m(2) have g3: "(\<forall>x\<in>set (mid # ?rest). misses_at ra p sra target tol x)
          \<longrightarrow> bs' = bs \<and> br' = br" by simp
      from i4 have g4: "length (mid # ?rest) \<le> Suc n" by simp
      from i5 have g5: "length (mid # ?rest) = Suc n \<or> high' - low' < tol / 10" by simp
      from i6 have g6: "high' - low' = (high - low) / 2 ^ length (mid # ?rest)"
        by (simp add: half)
      from g1 best g3 g4 g5 g6 show ?thesis
        unfolding mids by blast
    qed
  next
    case False
    then have m: "\<not> meets_at ra p sra target tol mid" "misses_at ra p sra target tol mid"
      by (simp_all add: meets_at_def misses_at_def res)
    show ?thesis
    proof (cases "mid - low < tol / 10")
      case w: True
      with False Suc.prems have
        "low' = low" "high' = mid" "bs' = bs" "br' = br"
        unfolding L by auto
      moreover from False w
      have "bisect_mids ra p sra target tol (Suc n) (low, high) = [mid]"
        unfolding M by simp
      ultimately show ?thesis using m w half by simp
    next
      case w: False
      with False Suc.prems have
        rec: "bisect_loop ra p sra target tol n (low, mid, bs, br)
                = Inr (low', high', bs', br')"
        unfolding L by simp
      from False w
      have mids: "bisect_mids ra p sra target tol (Suc n) (low, high)
          = mid # bisect_mids ra p sra target tol n (low, mid)"
        unfolding M by simp
      note ih = Suc.IH [OF rec]
      let ?rest = "bisect_mids ra p sra target tol n (low, mid)"
      from ih have i1: "\<forall>x\<in>set ?rest.
          meets_at ra p sra target tol x \<or> misses_at ra p sra target tol x"
        and i2: "(\<exists>x\<in>set ?rest. meets_at ra p sra target tol x) \<longrightarrow>
            (\<exists>e r'. bs' = Some e \<and> br' = Some r' \<and> e \<in> set ?rest
               \<and> simulate ra (p\<lparr>spend_month := e\<rparr>) (Some sra) = Inr r'
               \<and> meets_target target tol r')"
        and i3: "(\<forall>x\<in>set ?rest. misses_at ra p sra target tol x)
            \<longrightarrow> bs' = bs \<and> br' = br"
        and i4: "length ?rest \<le> n"
        and i5: "length ?rest = n \<or> high' - low' < tol / 10"
        and i6: "high' - low' = (mid - low) / 2 ^ length ?rest"
        by blast+
      from i1 m(2) have g1: "\<forall>x\<in>set (mid # ?rest).
          meets_at ra p sra target tol x \<or> misses_at ra p sra target tol x" by simp
      from i2 m(1) have g2: "(\<exists>x\<in>set (mid # ?rest). meets_at ra p sra target tol x) \<longrightarrow>
            (\<exists>e r'. bs' = Some e \<and> br' = Some r' \<and> e \<in> set (mid # ?rest)
               \<and> simulate ra (p\<lparr>spend_month := e\<rparr>) (Some sra) = Inr r'
               \<and> meets_target target tol r')" by auto
      from i3 have g3: "(\<forall>x\<in>set (mid # ?rest). misses_at ra p sra target tol x)
          \<longrightarrow> bs' = bs \<and> br' = br" by simp
      from i4 have g4: "length (mid # ?rest) \<le> Suc n" by simp
      from i5 have g5: "length (mid # ?rest) = Suc n \<or> high' - low' < tol / 10" by simp
      from i6 have g6: "high' - low' = (high - low) / 2 ^ length (mid # ?rest)"
        by (simp add: half)
      from g1 g2 g3 g4 g5 g6 show ?thesis
        unfolding mids by blast
    qed
  qed
qed

lemma length_bisect_mids: "length (bisect_mids ra p sra target tol n (low, high)) \<le> n"
proof (induction n arbitrary: low high)
  case 0
  show ?case by simp
next
  case (Suc n)
  define mid where "mid = (low + high) / 2"
  show ?case
  proof (cases "simulate ra (p\<lparr>spend_month := mid\<rparr>) (Some sra)")
    case (Inl e)
    then show ?thesis by (simp add: mid_def Let_def)
  next
    case (Inr res)
    from Suc.IH [of mid high] Suc.IH [of low mid] show ?thesis
      unfolding bisect_mids_step [OF mid_def Inr] by simp
  qed
qed

lemma feasible_end_above_floor:
  assumes "simulate ra p sopt = Inr r" "ok r"
  shows "min_assets p \<le> liquid_end r"
proof (cases "validate ra p (effective_spouse_retire_age p sopt)")
  case None
  from None assms(1) obtain st where "r = verdict p st" by (rule simulate_valid_Inr)
  with assms(2) show ?thesis by (simp add: verdict_fields)
next
  case (Some rsn)
  with assms show ?thesis by (auto simp: simulate_invalid invalid_result_def)
qed

lemma find_max_monthly_expense_eq:
  "find_max_monthly_expense p target retire_age_opt sopt tol max_iterations =
     (case bisect_loop (effective_retire_age p retire_age_opt) p
             (effective_spouse_retire_age p sopt) target tol (nat max_iterations)
             (0, initial_high p, None, None) of
        Inl e \<Rightarrow> Inl e
      | Inr (low, high, bs, br) \<Rightarrow>
          (case (bs, br) of
             (Some spend, Some result) \<Rightarrow>
               if meets_target target tol result then Inr (Some spend, Some result)
               else Inr (None, None)
           | _ \<Rightarrow> Inr (None, None)))"
  by (simp add: find_max_monthly_expense_def effective_retire_age_def
        effective_spouse_retire_age_def Let_def)

text \<open>
  C6, as amended.  A spend that \<open>find_max_monthly_expense\<close> returns is one of the
  bisection midpoints; the result returned with it is the result of the direct
  simulation with that spend as the monthly expense and the same retirement ages;
  that result is feasible, and its end assets are at least the target less the
  tolerance (they may exceed the target by more than the tolerance).  The none
  sentinel is returned exactly when the simulation at every bisection midpoint
  returned a result that is infeasible or misses the target.  Each iteration
  simulates the parameter set with the midpoint of the current bracket as the monthly
  expense and no other field changed; there are at most \<open>max_iterations\<close> iterations,
  every iteration halves the bracket, which starts as \<open>[0, initial_high]\<close>, and a loop
  that ends before the iteration count has a bracket narrower than a tenth of the
  tolerance.
\<close>

theorem find_max_monthly_expense_best_midpoint:
  fixes p :: Params and retire_age_opt sopt target tol max_iterations
  defines "ra \<equiv> effective_retire_age p retire_age_opt"
  defines "sra \<equiv> effective_spouse_retire_age p sopt"
  defines "mids \<equiv> bisect_mids ra p sra target tol (nat max_iterations) (0, initial_high p)"
  defines "found \<equiv> find_max_monthly_expense p target retire_age_opt sopt tol max_iterations"
  shows "(\<forall>e ro. found = Inr (Some e, ro) \<longrightarrow>
            (\<exists>res. ro = Some res \<and> e \<in> set mids
               \<and> simulate ra (p\<lparr>spend_month := e\<rparr>) (Some sra) = Inr res
               \<and> ok res \<and> liquid_end res \<ge> target - tol))
       \<and> (\<forall>ro. found = Inr (None, ro) \<longleftrightarrow>
            ro = None \<and> (\<forall>mid\<in>set mids. misses_at ra p sra target tol mid))
       \<and> (\<forall>mid. test_params p mid = p\<lparr>spend_month := mid\<rparr>)
       \<and> length mids \<le> nat max_iterations
       \<and> (0 < max_iterations \<longrightarrow> mids \<noteq> [] \<and> hd mids = (0 + initial_high p) / 2)
       \<and> (\<forall>low high bs br.
            bisect_loop ra p sra target tol (nat max_iterations) (0, initial_high p, None, None)
              = Inr (low, high, bs, br) \<longrightarrow>
            (length mids = nat max_iterations \<or> high - low < tol / 10)
            \<and> high - low = initial_high p / 2 ^ length mids)"
proof -
  let ?loop = "bisect_loop ra p sra target tol (nat max_iterations)
      (0, initial_high p, None, None)"
  have F: "found = (case ?loop of
        Inl e \<Rightarrow> Inl e
      | Inr (low, high, bs, br) \<Rightarrow>
          (case (bs, br) of
             (Some spend, Some result) \<Rightarrow>
               if meets_target target tol result then Inr (Some spend, Some result)
               else Inr (None, None)
           | _ \<Rightarrow> Inr (None, None)))"
    unfolding found_def ra_def sra_def by (rule find_max_monthly_expense_eq)
  have A: "\<exists>res. ro = Some res \<and> e \<in> set mids
               \<and> simulate ra (p\<lparr>spend_month := e\<rparr>) (Some sra) = Inr res
               \<and> ok res \<and> liquid_end res \<ge> target - tol"
    if "found = Inr (Some e, ro)" for e ro
  proof -
    from that F obtain low high bs br where
      loop: "?loop = Inr (low, high, bs, br)"
      by (cases ?loop) (auto split: prod.splits)
    with that F obtain res where b: "bs = Some e" "br = Some res" "ro = Some res"
      by (auto split: option.splits if_splits)
    note P = bisect_loop_props [OF loop, folded mids_def]
    have "\<exists>mid\<in>set mids. meets_at ra p sra target tol mid"
    proof (rule ccontr)
      assume "\<not> (\<exists>mid\<in>set mids. meets_at ra p sra target tol mid)"
      with P have "\<forall>mid\<in>set mids. misses_at ra p sra target tol mid" by blast
      with P b show False by simp
    qed
    with P b have "e \<in> set mids" "simulate ra (p\<lparr>spend_month := e\<rparr>) (Some sra) = Inr res"
      "meets_target target tol res" by auto
    with b show ?thesis by (auto simp: meets_target_def)
  qed
  have B: "found = Inr (None, ro) \<longleftrightarrow>
            ro = None \<and> (\<forall>mid\<in>set mids. misses_at ra p sra target tol mid)" for ro
  proof
    assume n: "found = Inr (None, ro)"
    with F obtain low high bs br where
      loop: "?loop = Inr (low, high, bs, br)"
      by (cases ?loop) (auto split: prod.splits)
    note P = bisect_loop_props [OF loop, folded mids_def]
    from n F loop have ro: "ro = None" by (auto split: option.splits if_splits)
    have "\<not> (\<exists>mid\<in>set mids. meets_at ra p sra target tol mid)"
    proof
      assume "\<exists>mid\<in>set mids. meets_at ra p sra target tol mid"
      with P obtain e res where "bs = Some e" "br = Some res" "meets_target target tol res"
        by blast
      with n F loop show False by simp
    qed
    with P have "\<forall>mid\<in>set mids. misses_at ra p sra target tol mid" by blast
    with ro show "ro = None \<and> (\<forall>mid\<in>set mids. misses_at ra p sra target tol mid)" by simp
  next
    assume a: "ro = None \<and> (\<forall>mid\<in>set mids. misses_at ra p sra target tol mid)"
    then have "\<forall>mid\<in>set mids.
        meets_at ra p sra target tol mid \<or> misses_at ra p sra target tol mid" by blast
    from bisect_loop_returns [OF this [unfolded mids_def], of None None]
    obtain low high bs br where loop: "?loop = Inr (low, high, bs, br)"
      by (metis prod_cases4)
    note P = bisect_loop_props [OF loop, folded mids_def]
    from P a have "bs = None" "br = None" by simp_all
    with F loop a show "found = Inr (None, ro)" by simp
  qed
  have C: "length mids \<le> nat max_iterations"
    unfolding mids_def by (rule length_bisect_mids)
  have D: "mids \<noteq> [] \<and> hd mids = (0 + initial_high p) / 2" if "0 < max_iterations"
  proof -
    from that obtain n where n: "nat max_iterations = Suc n"
      by (cases "nat max_iterations") auto
    show ?thesis
      unfolding mids_def n by (simp add: Let_def split: sum.splits)
  qed
  have E: "(length mids = nat max_iterations \<or> high - low < tol / 10)
            \<and> high - low = initial_high p / 2 ^ length mids"
    if "?loop = Inr (low, high, bs, br)" for low high bs br
  proof -
    note P = bisect_loop_props [OF that, folded mids_def]
    from P have "length mids = nat max_iterations \<or> high - low < tol / 10" by blast
    moreover from P have "high - low = (initial_high p - 0) / 2 ^ length mids" by blast
    then have "high - low = initial_high p / 2 ^ length mids" by simp
    ultimately show ?thesis by blast
  qed
  from A B C D E test_params_eq show ?thesis by blast
qed

lemma floor_params_ages:
  "effective_retire_age floor_params None = 65"
  "effective_spouse_retire_age floor_params None = 36"
  "effective_spouse_retire_age (floor_params\<lparr>spend_month := mid\<rparr>) (Some 36) = 36"
  by (simp_all add: effective_retire_age_def effective_spouse_retire_age_def floor_params_def
        flat_params_def default_params_def)

lemma floor_params_initial_high: "initial_high floor_params = 618000"
  by (simp add: initial_high_def floor_params_def flat_params_def default_params_def
        py_round_def Let_def)

lemma floor_params_returns:
  "\<exists>res. simulate 65 (floor_params\<lparr>spend_month := mid\<rparr>) (Some 36) = Inr res"
  by (rule simulate_returns)
    (simp_all add: floor_params_def flat_params_def default_params_def rate_is_complex_def)

lemma floor_params_first_mid:
  obtains res where
    "simulate 65 (floor_params\<lparr>spend_month := 309000\<rparr>) (Some 36) = Inr res"
    "ok res" "liquid_end res = 2242069 / 500"
proof -
  let ?P = "floor_params\<lparr>spend_month := 309000\<rparr>"
  have flat: "flat_cash_flow ?P"
    by (simp add: flat_cash_flow_def floor_params_def flat_params_def default_params_def
          opt_list_def)
  have "quiet_month ?P 0"
    by (simp add: quiet_month_def floor_params_def flat_params_def default_params_def
          opt_list_def age1_at_def age2_at_def)
  then have q: "\<forall>m<1. quiet_month ?P m" by simp
  have v: "validate 65 ?P (effective_spouse_retire_age ?P (Some 36)) = None"
    by (simp add: validate_def effective_spouse_retire_age_def floor_params_def
          flat_params_def default_params_def opt_list_def)
  have tm: "total_months ?P = 1"
    by (simp add: total_months_def floor_params_def flat_params_def default_params_def
          py_round_def)
  have b: "base_net_income 65 ?P 36 0 = 6742069 / 500"
    by (simp add: base_net_income_def net_of_gross_18000 age1_at_def age2_at_def
          floor_params_def flat_params_def default_params_def)
  from quiet_flat_run_returns [OF flat q] obtain st where
    st: "state_after 65 ?P 36 1 = Inr st" by blast
  from quiet_flat_run [OF flat q st] b
  have "liquid st = liquid_now ?P + 6742069 / 500 - spend_month ?P" by simp
  then have l: "liquid st = 2242069 / 500"
    by (simp add: floor_params_def flat_params_def default_params_def)
  from state_after_records [OF st] have len: "length (records st) = 1"
    and viol: "min_assets_violated st \<longleftrightarrow> (\<exists>r\<in>set (records st). col_liquid r < min_assets ?P)"
    and last: "liquid st = col_liquid (last (records st))" by simp_all
  from len obtain row where "records st = [row]" by (cases "records st") auto
  with viol last l have nv: "\<not> min_assets_violated st"
    by (simp add: floor_params_def)
  from st have "final_state 65 ?P 36 = Inr st" by (simp add: final_state_def tm)
  then have sim: "simulate 65 ?P (Some 36) = Inr (verdict ?P st)"
    by (simp add: simulate_valid [OF v] floor_params_ages)
  from nv l have "ok (verdict ?P st)" "liquid_end (verdict ?P st) = 2242069 / 500"
    by (simp_all add: verdict_fields floor_params_def)
  with sim that show thesis by blast
qed

lemma floor_params_found:
  obtains e res where
    "find_max_monthly_expense floor_params 0 None None 1000 50 = Inr (Some e, Some res)"
proof -
  let ?mids = "bisect_mids 65 floor_params 36 0 1000 (nat 50) (0, initial_high floor_params)"
  have all: "meets_at 65 floor_params 36 0 1000 mid \<or> misses_at 65 floor_params 36 0 1000 mid"
    for mid
    using floor_params_returns [of mid]
    by (auto simp: meets_at_def misses_at_def)
  then have "\<forall>mid\<in>set ?mids.
      meets_at 65 floor_params 36 0 1000 mid \<or> misses_at 65 floor_params 36 0 1000 mid"
    by blast
  from bisect_loop_returns [OF this, of None None] obtain low high bs br where
    loop: "bisect_loop 65 floor_params 36 0 1000 (nat 50) (0, initial_high floor_params,
      None, None) = Inr (low, high, bs, br)"
    by (metis prod_cases4)
  note P = bisect_loop_props [OF loop]
  obtain res0 where res0:
    "simulate 65 (floor_params\<lparr>spend_month := 309000\<rparr>) (Some 36) = Inr res0"
    "ok res0" "liquid_end res0 = 2242069 / 500"
    by (rule floor_params_first_mid)
  then have m: "meets_at 65 floor_params 36 0 1000 309000"
    by (simp add: meets_at_def meets_target_def)
  have "nat 50 = Suc 49" by simp
  with bisect_mids_first [of 0 "initial_high floor_params" 65 floor_params 36 0 1000 49]
  have "309000 \<in> set ?mids" by (simp add: floor_params_initial_high)
  with m P obtain e res where "bs = Some e" "br = Some res" "meets_target 0 1000 res"
    by blast
  with loop have "find_max_monthly_expense floor_params 0 None None 1000 50
      = Inr (Some e, Some res)"
    by (simp add: find_max_monthly_expense_eq floor_params_ages)
  with that show thesis by blast
qed

theorem find_max_monthly_expense_best_midpoint_witness:
  "(\<exists>e res. find_max_monthly_expense floor_params 0 None None 1000 50 = Inr (Some e, Some res)
       \<and> simulate 65 (floor_params\<lparr>spend_month := e\<rparr>) (Some 36) = Inr res
       \<and> ok res \<and> liquid_end res \<ge> 0 - 1000)
   \<and> (0::int) < 50
   \<and> hd (bisect_mids 65 floor_params 36 0 1000 (nat 50) (0, initial_high floor_params))
       = 309000
   \<and> bisect_mids 65 floor_params 36 1000000000 1000 (nat 1) (0, initial_high floor_params)
       = [309000]
   \<and> misses_at 65 floor_params 36 1000000000 1000 309000
   \<and> find_max_monthly_expense floor_params 1000000000 None None 1000 1 = Inr (None, None)"
proof -
  note T1 = find_max_monthly_expense_best_midpoint [of floor_params 0 None None 1000 50,
      unfolded floor_params_ages]
  note T2 = find_max_monthly_expense_best_midpoint [of floor_params 1000000000 None None 1000 1,
      unfolded floor_params_ages]
  obtain e res where
    f: "find_max_monthly_expense floor_params 0 None None 1000 50 = Inr (Some e, Some res)"
    by (rule floor_params_found)
  with T1 have a: "simulate 65 (floor_params\<lparr>spend_month := e\<rparr>) (Some 36) = Inr res
       \<and> ok res \<and> liquid_end res \<ge> 0 - 1000" by blast
  from T1 have h: "hd (bisect_mids 65 floor_params 36 0 1000 (nat 50)
      (0, initial_high floor_params)) = 309000"
    by (simp add: floor_params_initial_high)
  obtain res0 where res0:
    "simulate 65 (floor_params\<lparr>spend_month := 309000\<rparr>) (Some 36) = Inr res0"
    "ok res0" "liquid_end res0 = 2242069 / 500"
    by (rule floor_params_first_mid)
  have mid: "(309000::real) = (0 + initial_high floor_params) / 2"
    by (simp add: floor_params_initial_high)
  have "nat 1 = Suc 0" by simp
  then have one: "bisect_mids 65 floor_params 36 1000000000 1000 (nat 1)
      (0, initial_high floor_params) = [309000]"
    using bisect_mids_step [OF mid res0(1), of 1000000000 1000 0] by simp
  from res0 have miss: "misses_at 65 floor_params 36 1000000000 1000 309000"
    by (simp add: misses_at_def meets_target_def)
  from one miss have ms: "\<forall>mid\<in>set (bisect_mids 65 floor_params 36 1000000000 1000 (nat 1)
                    (0, initial_high floor_params)).
         misses_at 65 floor_params 36 1000000000 1000 mid" by simp
  with T2 have n: "find_max_monthly_expense floor_params 1000000000 None None 1000 1
      = Inr (None, None)" by blast
  have "(0::int) < 50" by simp
  with f a h one miss n show ?thesis by blast
qed

theorem end_assets_off_target_counterexample:
  "min_assets floor_params = 2000
   \<and> off_target 0 1000 (find_max_monthly_expense floor_params 0 None None 1000 50)"
proof -
  obtain e res where
    f: "find_max_monthly_expense floor_params 0 None None 1000 50 = Inr (Some e, Some res)"
    by (rule floor_params_found)
  let ?mids = "bisect_mids 65 floor_params 36 0 1000 (nat 50) (0, initial_high floor_params)"
  from f obtain low high bs br where
    loop: "bisect_loop 65 floor_params 36 0 1000 (nat 50) (0, initial_high floor_params,
      None, None) = Inr (low, high, bs, br)"
    by (cases "bisect_loop 65 floor_params 36 0 1000 (nat 50) (0, initial_high floor_params,
      None, None)")
      (auto simp: find_max_monthly_expense_eq floor_params_ages)
  with f have b: "bs = Some e" "br = Some res" "meets_target 0 1000 res"
    by (auto simp: find_max_monthly_expense_eq floor_params_ages
          split: option.splits if_splits)
  note P = bisect_loop_props [OF loop]
  have "\<not> (\<forall>mid\<in>set ?mids. misses_at 65 floor_params 36 0 1000 mid)"
    using P b by auto
  with P have "\<exists>mid\<in>set ?mids. meets_at 65 floor_params 36 0 1000 mid" by blast
  with P b have sim: "simulate 65 (floor_params\<lparr>spend_month := e\<rparr>) (Some 36) = Inr res"
    by auto
  from b have "ok res" by (simp add: meets_target_def)
  from feasible_end_above_floor [OF sim this] have "2000 \<le> liquid_end res"
    by (simp add: floor_params_def)
  with f show ?thesis by (simp add: off_target_def floor_params_def)
qed

end
